theory Spec2Isabelle
  imports Main "HOL-Library.Word"
begin

section \<open>The MySQL driver of lib-sql (driver-mysql.c)\<close>

text \<open>
  A shallow embedding of \<^verbatim>\<open>src/lib-sql/driver-mysql.c\<close>: the connection ring of one
  database handle, connecting with back-off, the round-robin dispatch of a query, and the
  result objects handed to the caller's callback.

  C's \<^verbatim>\<open>unsigned int\<close> is a 32-bit word (arithmetic wraps), \<^verbatim>\<open>time_t\<close> is an integer
  wider than any delay, a C string is a \<open>string\<close>, a pointer that may be \<^verbatim>\<open>NULL\<close> is an
  \<open>option\<close>. The connection buffer is a list, indexed as the C array is.
\<close>

subsection \<open>Constants\<close>

type_synonym uint = "32 word"
type_synonym time_t = int

definition CONNECT_MIN_DELAY :: uint where
  "CONNECT_MIN_DELAY = 1"

definition CONNECT_MAX_DELAY :: uint where
  "CONNECT_MAX_DELAY = 60 * 30"

definition CONNECT_RESET_DELAY :: uint where
  "CONNECT_RESET_DELAY = 15"

text \<open>The two client error codes of \<^verbatim>\<open>errmsg.h\<close> that mean the connection was lost.\<close>

definition CR_SERVER_GONE_ERROR :: nat where
  "CR_SERVER_GONE_ERROR = 2006"

definition CR_SERVER_LOST :: nat where
  "CR_SERVER_LOST = 2013"

subsection \<open>Data\<close>

text \<open>
  The client library's handle \<^verbatim>\<open>MYSQL\<close>, as far as the driver reads it: what
  \<^verbatim>\<open>mysql_errno()\<close> and \<^verbatim>\<open>mysql_error()\<close> report.
\<close>

record MYSQL =
  mysql_errno :: nat
  mysql_error :: string

text \<open>
  \<^verbatim>\<open>struct mysql_connection\<close>. The back pointer \<^verbatim>\<open>db\<close> is not a field here: the
  functions that follow it take the handle as an argument.
\<close>

record mysql_connection =
  mysql :: MYSQL
  host :: string
  connect_delay :: uint
  connect_failure_count :: uint
  last_connect :: time_t
  connected :: bool
  ssl_set :: bool

text \<open>\<^verbatim>\<open>struct mysql_db\<close>; \<^verbatim>\<open>connections\<close> is the buffer of connections, in order.\<close>

record mysql_db =
  user :: "string option"
  password :: "string option"
  dbname :: "string option"
  unix_socket :: "string option"
  ssl_cert :: "string option"
  ssl_key :: "string option"
  ssl_ca :: "string option"
  ssl_ca_path :: "string option"
  ssl_cipher :: "string option"
  port :: uint
  client_flags :: uint
  connections :: "mysql_connection list"
  next_query_connection :: uint

text \<open>
  A stored result set \<^verbatim>\<open>MYSQL_RES\<close>: what the successive calls of
  \<^verbatim>\<open>mysql_fetch_row()\<close> will deliver, and the field names. A fetch delivers a row, or
  \<^verbatim>\<open>NULL\<close> with an error code set on the handle; when nothing is left it delivers
  \<^verbatim>\<open>NULL\<close> and leaves the handle alone.
\<close>

datatype fetch = Fetch_row "string list" | Fetch_fault nat string

record MYSQL_RES =
  res_rows :: "fetch list"
  res_fields :: "string list"

text \<open>
  The functions a \<^verbatim>\<open>struct sql_result\<close> can point to, by name and by the type of the
  slot, and the table itself (a \<^verbatim>\<open>NULL\<close> slot is \<open>None\<close>). The table's \<^verbatim>\<open>db\<close>
  pointer is left out.
\<close>

datatype next_row_fn = Driver_mysql_result_next_row | Driver_mysql_result_error_next_row

datatype get_fields_count_fn = Driver_mysql_result_get_fields_count

datatype get_error_fn = Driver_mysql_result_get_error

datatype field_fn =
    Driver_mysql_result_get_field_name
  | Driver_mysql_result_find_field
  | Driver_mysql_result_get_field_value
  | Driver_mysql_result_find_field_value
  | Driver_mysql_result_get_values

record sql_result =
  next_row :: "next_row_fn option"
  get_fields_count :: "get_fields_count_fn option"
  get_field_name :: "field_fn option"
  find_field :: "field_fn option"
  get_field_value :: "field_fn option"
  find_field_value :: "field_fn option"
  get_values :: "field_fn option"
  get_error :: "get_error_fn option"

text \<open>
  \<^verbatim>\<open>struct mysql_result\<close>. \<^verbatim>\<open>conn\<close> points into the connection buffer; here it is the
  connection as it stands while the callback runs (nothing else touches the connection
  meanwhile: one connection serves one query at a time).
\<close>

record mysql_result =
  api :: sql_result
  conn :: "mysql_connection option"
  result :: "MYSQL_RES option"
  row :: "string list option"
  result_fields :: "string list option"
  fields_count :: uint

text \<open>
  What the callback is called with: the address of the extern object
  \<^verbatim>\<open>sql_not_connected_result\<close>, or of the driver's own result.
\<close>

datatype callback_arg = Sql_not_connected_result | Mysql_result mysql_result

subsection \<open>The world outside\<close>

text \<open>
  Every call that leaves the driver is written to a log, in order. What the outside
  answers is given by an environment, a function of the number of calls made so far
  (and of the host and query the call names), so that any behaviour of clock, servers and
  library over time is one environment. \<open>Slot_tried i\<close> is not a call: it marks each
  call of \<^verbatim>\<open>driver_mysql_connection_do_query(&conn[i], ...)\<close> by the dispatcher. The
  messages of \<^verbatim>\<open>i_error\<close> and \<^verbatim>\<open>i_info\<close> are not logged.
\<close>

datatype event =
    Time_call
  | Init_call string
  | Ssl_set_call string
  | Real_connect_call string
  | Query_call string string
  | Store_result_call string
  | Callback_call callback_arg
  | Free_result_call
  | Slot_tried nat

datatype reply = Ok | Failed nat string

datatype store_reply = Stored MYSQL_RES | Store_null nat string

record env =
  HAVE_MYSQL_SSL :: bool
  time_reply :: "nat \<Rightarrow> time_t"
  mysql_init_reply :: "nat \<Rightarrow> bool"
  mysql_real_connect_reply :: "nat \<Rightarrow> string \<Rightarrow> reply"
  mysql_query_reply :: "nat \<Rightarrow> string \<Rightarrow> string \<Rightarrow> reply"
  mysql_store_result_reply :: "nat \<Rightarrow> string \<Rightarrow> store_reply"

text \<open>
  How a call ends the process: \<^verbatim>\<open>i_fatal\<close> with its message, the division by a
  ring size of zero, or the use of a \<^verbatim>\<open>NULL\<close> (or never assigned) pointer.
\<close>

datatype failure = Fatal string | Division_by_zero | Null_pointer

definition set_reply :: "reply \<Rightarrow> MYSQL" where
  "set_reply r = (case r of Ok \<Rightarrow> \<lparr>mysql_errno = 0, mysql_error = []\<rparr>
                  | Failed e msg \<Rightarrow> \<lparr>mysql_errno = e, mysql_error = msg\<rparr>)"

subsection \<open>Connecting\<close>

text \<open>
  \<^verbatim>\<open>driver_mysql_connect\<close>: the result is \<^verbatim>\<open>TRUE\<close>/\<^verbatim>\<open>FALSE\<close>, the connection as
  it is left, and the log.
\<close>

definition driver_mysql_connect ::
  "env \<Rightarrow> mysql_db \<Rightarrow> mysql_connection \<Rightarrow> event list
    \<Rightarrow> failure + (bool \<times> mysql_connection \<times> event list)" where
  "driver_mysql_connect E db c log =
    (if connected c then Inr (True, c, log)
     else
       let now = time_reply E (length log);
           log1 = log @ [Time_call]
       in
       if last_connect c + uint (connect_delay c) > now then Inr (False, c, log1)
       else
         let c1 = c\<lparr>last_connect := now\<rparr>;
             want_ssl = (\<not> ssl_set c1 \<and> (ssl_ca db \<noteq> None \<or> ssl_ca_path db \<noteq> None))
         in
         if want_ssl \<and> \<not> HAVE_MYSQL_SSL E then
           Inl (Fatal ''mysql: SSL support not compiled in (remove ssl_ca and ssl_ca_path settings)'')
         else
           let c2 = (if want_ssl then c1\<lparr>ssl_set := True\<rparr> else c1);
               log2 = (if want_ssl then log1 @ [Ssl_set_call (host c2)] else log1);
               r = mysql_real_connect_reply E (length log2) (host c2);
               c3 = c2\<lparr>mysql := set_reply r\<rparr>;
               log3 = log2 @ [Real_connect_call (host c2)]
           in
           (case r of
              Failed e msg \<Rightarrow>
                let c4 =
                      (if connect_failure_count c3 > 0 then
                         let c' = c3\<lparr>connect_delay := connect_delay c3 * 5\<rparr>
                         in if connect_delay c' > CONNECT_MAX_DELAY
                            then c'\<lparr>connect_delay := CONNECT_MAX_DELAY\<rparr> else c'
                       else c3);
                    c5 = c4\<lparr>connect_failure_count := connect_failure_count c4 + 1\<rparr>
                in Inr (False, c5, log3)
            | Ok \<Rightarrow>
                Inr (True,
                     c3\<lparr>connect_failure_count := 0,
                        connect_delay := CONNECT_MIN_DELAY,
                        connected := True\<rparr>,
                     log3)))"

text \<open>\<^verbatim>\<open>driver_mysql_connect_all\<close>: every connection of the buffer in turn.\<close>

fun connect_all_loop ::
  "env \<Rightarrow> mysql_db \<Rightarrow> mysql_connection list \<Rightarrow> event list
    \<Rightarrow> failure + (mysql_connection list \<times> event list)" where
  "connect_all_loop E db [] log = Inr ([], log)"
| "connect_all_loop E db (c # cs) log =
    (case driver_mysql_connect E db c log of
       Inl f \<Rightarrow> Inl f
     | Inr (_, c', log') \<Rightarrow>
         (case connect_all_loop E db cs log' of
            Inl f \<Rightarrow> Inl f
          | Inr (cs', log'') \<Rightarrow> Inr (c' # cs', log'')))"

definition driver_mysql_connect_all ::
  "env \<Rightarrow> mysql_db \<Rightarrow> event list \<Rightarrow> failure + (mysql_db \<times> event list)" where
  "driver_mysql_connect_all E db log =
    (case connect_all_loop E db (connections db) log of
       Inl f \<Rightarrow> Inl f
     | Inr (cs, log') \<Rightarrow> Inr (db\<lparr>connections := cs\<rparr>, log'))"

subsection \<open>Reading the connect string\<close>

text \<open>
  \<^verbatim>\<open>driver_mysql_connection_add\<close>. The space the buffer hands out is zero-filled, so a
  new connection is not connected, has never failed and was last tried at time 0.
  \<^verbatim>\<open>mysql_init()\<close> returning \<^verbatim>\<open>NULL\<close> is fatal.
\<close>

definition driver_mysql_connection_add ::
  "env \<Rightarrow> mysql_db \<Rightarrow> string \<Rightarrow> event list \<Rightarrow> failure + (mysql_db \<times> event list)" where
  "driver_mysql_connection_add E db h log =
    (if \<not> mysql_init_reply E (length log) then Inl (Fatal ''mysql_init() failed'')
     else
       Inr (db\<lparr>connections := connections db @
                 [\<lparr>mysql = \<lparr>mysql_errno = 0, mysql_error = []\<rparr>,
                   host = h,
                   connect_delay = CONNECT_MIN_DELAY,
                   connect_failure_count = 0,
                   last_connect = 0,
                   connected = False,
                   ssl_set = False\<rparr>]\<rparr>,
            log @ [Init_call h]))"

text \<open>
  Modelled from the spec: \<^verbatim>\<open>t_strsplit_spaces\<close> (lib/strfuncs.c) is not under src/. The
  connect string is a sequence of tokens separated by spaces; runs of separators count as
  one and no token is empty.
\<close>

function t_strsplit_spaces :: "string \<Rightarrow> string \<Rightarrow> string list" where
  "t_strsplit_spaces data seps =
    (case dropWhile (\<lambda>c. c \<in> set seps) data of
       [] \<Rightarrow> []
     | x # xs \<Rightarrow>
         takeWhile (\<lambda>c. c \<notin> set seps) (x # xs)
           # t_strsplit_spaces (dropWhile (\<lambda>c. c \<notin> set seps) xs) seps)"
  by pat_completeness auto
termination
proof (relation "measure (\<lambda>(data, seps). length data)")
  show "wf (measure (\<lambda>(data, seps). length data))" by simp
next
  fix data seps :: string and x xs
  assume a: "dropWhile (\<lambda>c. c \<in> set seps) data = x # xs"
  have "length (dropWhile (\<lambda>c. c \<notin> set seps) xs) \<le> length xs"
    by (rule length_dropWhile_le)
  moreover have "length (x # xs) \<le> length data"
    using length_dropWhile_le [of "\<lambda>c. c \<in> set seps" data] a by simp
  ultimately show "((dropWhile (\<lambda>c. c \<notin> set seps) xs, seps), (data, seps))
      \<in> measure (\<lambda>(data, seps). length data)"
    by simp
qed

text \<open>
  \<^verbatim>\<open>atoi\<close> of the C library: white space, a sign, then decimal digits up to the first
  character that is none. (A value out of the range of \<^verbatim>\<open>int\<close> is undefined in C; here
  it is reduced modulo \<open>2^32\<close> when it is stored in an \<^verbatim>\<open>unsigned int\<close>.)
\<close>

definition isspace :: "char \<Rightarrow> bool" where
  "isspace c = (of_char c \<in> {9, 10, 11, 12, 13, 32 :: nat})"

fun digits_value :: "int \<Rightarrow> string \<Rightarrow> int" where
  "digits_value acc [] = acc"
| "digits_value acc (c # cs) =
    (if 48 \<le> (of_char c :: nat) \<and> (of_char c :: nat) \<le> 57
     then digits_value (acc * 10 + (int (of_char c) - 48)) cs
     else acc)"

definition atoi :: "string \<Rightarrow> int" where
  "atoi s =
    (case dropWhile isspace s of
       [] \<Rightarrow> 0
     | c # cs \<Rightarrow>
         if c = CHR ''-'' then - digits_value 0 cs
         else if c = CHR ''+'' then digits_value 0 cs
         else digits_value 0 (c # cs))"

text \<open>
  The loop of \<^verbatim>\<open>driver_mysql_parse_connect_string\<close> over the tokens: the name is what
  stands before the first \<^verbatim>\<open>=\<close>, the value what follows it.
\<close>

fun parse_connect_args ::
  "env \<Rightarrow> mysql_db \<Rightarrow> string list \<Rightarrow> event list \<Rightarrow> failure + (mysql_db \<times> event list)" where
  "parse_connect_args E db [] log = Inr (db, log)"
| "parse_connect_args E db (arg # args) log =
    (if CHR ''='' \<notin> set arg then
       Inl (Fatal (''mysql: Missing value in connect string: '' @ arg))
     else
       let name = takeWhile (\<lambda>c. c \<noteq> CHR ''='') arg;
           val = tl (dropWhile (\<lambda>c. c \<noteq> CHR ''='') arg)
       in
       if name = ''host'' \<or> name = ''hostaddr'' then
         (case driver_mysql_connection_add E db val log of
            Inl f \<Rightarrow> Inl f
          | Inr (db', log') \<Rightarrow> parse_connect_args E db' args log')
       else if name = ''user'' then parse_connect_args E (db\<lparr>user := Some val\<rparr>) args log
       else if name = ''password'' then
         parse_connect_args E (db\<lparr>password := Some val\<rparr>) args log
       else if name = ''dbname'' then parse_connect_args E (db\<lparr>dbname := Some val\<rparr>) args log
       else if name = ''port'' then
         parse_connect_args E (db\<lparr>port := word_of_int (atoi val)\<rparr>) args log
       else if name = ''client_flags'' then
         parse_connect_args E (db\<lparr>client_flags := word_of_int (atoi val)\<rparr>) args log
       else if name = ''ssl_cert'' then
         parse_connect_args E (db\<lparr>ssl_cert := Some val\<rparr>) args log
       else if name = ''ssl_key'' then parse_connect_args E (db\<lparr>ssl_key := Some val\<rparr>) args log
       else if name = ''ssl_ca'' then parse_connect_args E (db\<lparr>ssl_ca := Some val\<rparr>) args log
       else if name = ''ssl_ca_path'' then
         parse_connect_args E (db\<lparr>ssl_ca_path := Some val\<rparr>) args log
       else if name = ''ssl_cipher'' then
         parse_connect_args E (db\<lparr>ssl_cipher := Some val\<rparr>) args log
       else Inl (Fatal (''mysql: Unknown connect string: '' @ name)))"

definition driver_mysql_parse_connect_string ::
  "env \<Rightarrow> mysql_db \<Rightarrow> string \<Rightarrow> event list \<Rightarrow> failure + (mysql_db \<times> event list)" where
  "driver_mysql_parse_connect_string E db connect_string log =
    (case parse_connect_args E (db\<lparr>ssl_cipher := Some ''HIGH''\<rparr>)
            (t_strsplit_spaces connect_string '' '') log of
       Inl f \<Rightarrow> Inl f
     | Inr (db', log') \<Rightarrow>
         if connections db' = [] then Inl (Fatal ''mysql: No hosts given in connect string'')
         else Inr (db', log'))"

text \<open>\<^verbatim>\<open>driver_mysql_init\<close>: the handle starts zeroed (\<^verbatim>\<open>p_new\<close>) with an empty buffer.\<close>

definition new_mysql_db :: mysql_db where
  "new_mysql_db =
    \<lparr>user = None, password = None, dbname = None, unix_socket = None,
     ssl_cert = None, ssl_key = None, ssl_ca = None, ssl_ca_path = None, ssl_cipher = None,
     port = 0, client_flags = 0, connections = [], next_query_connection = 0\<rparr>"

definition driver_mysql_init ::
  "env \<Rightarrow> string \<Rightarrow> event list \<Rightarrow> failure + (mysql_db \<times> event list)" where
  "driver_mysql_init E connect_string log =
    (case driver_mysql_parse_connect_string E new_mysql_db connect_string log of
       Inl f \<Rightarrow> Inl f
     | Inr (db, log') \<Rightarrow> driver_mysql_connect_all E db log')"

subsection \<open>Running a query\<close>

text \<open>
  \<^verbatim>\<open>driver_mysql_connection_do_query\<close>: the loop \<^verbatim>\<open>for (i = 0; i < 2; i++)\<close>, entered
  at \<open>i\<close>. The result is \<open>1\<close> (query sent and accepted), \<open>-1\<close> (the server refused
  it) or \<open>0\<close> (not connected).
\<close>

function connection_do_query_loop ::
  "env \<Rightarrow> mysql_db \<Rightarrow> int \<Rightarrow> mysql_connection \<Rightarrow> string \<Rightarrow> event list
    \<Rightarrow> failure + (int \<times> mysql_connection \<times> event list)" where
  "connection_do_query_loop E db i c query log =
    (if i < 2 then
       (case driver_mysql_connect E db c log of
          Inl f \<Rightarrow> Inl f
        | Inr (ok, c1, log1) \<Rightarrow>
            if \<not> ok then Inr (0, c1, log1)
            else
              let r = mysql_query_reply E (length log1) (host c1) query;
                  c2 = c1\<lparr>mysql := set_reply r\<rparr>;
                  log2 = log1 @ [Query_call (host c1) query]
              in
              if r = Ok then Inr (1, c2, log2)
              else if mysql_errno (mysql c2) = CR_SERVER_GONE_ERROR
                    \<or> mysql_errno (mysql c2) = CR_SERVER_LOST
              then connection_do_query_loop E db (i + 1) (c2\<lparr>connected := False\<rparr>) query log2
              else Inr (- 1, c2, log2))
     else Inr (0, c, log))"
  by pat_completeness auto
termination
  by (relation "measure (\<lambda>(E, db, i, c, query, log). nat (2 - i))") auto

declare connection_do_query_loop.simps [simp del]

definition driver_mysql_connection_do_query ::
  "env \<Rightarrow> mysql_db \<Rightarrow> mysql_connection \<Rightarrow> string \<Rightarrow> event list
    \<Rightarrow> failure + (int \<times> mysql_connection \<times> event list)" where
  "driver_mysql_connection_do_query E db c query log = connection_do_query_loop E db 0 c query log"

text \<open>
  The inner loop of \<^verbatim>\<open>driver_mysql_do_query\<close>,
  \<^verbatim>\<open>do { ... i = (i + 1) % size; } while (i != start)\<close>, entered at \<open>i\<close>. It yields
  \<open>Some (ret, i)\<close> when connection \<open>i\<close> answered with \<open>ret \<noteq> 0\<close>, and \<open>None\<close> when
  the walk came back to \<open>start\<close>. Nothing in the loop itself says that it ends, so it is a
  partial function: not returning is the outer \<open>None\<close>.
\<close>

partial_function (option) ring_walk ::
  "env \<Rightarrow> mysql_db \<Rightarrow> string \<Rightarrow> nat \<Rightarrow> nat \<Rightarrow> event list
    \<Rightarrow> (failure + ((int \<times> nat) option \<times> mysql_db \<times> event list)) option" where
  "ring_walk E db query start i log =
    (case driver_mysql_connection_do_query E db (connections db ! i) query
            (log @ [Slot_tried i]) of
       Inl f \<Rightarrow> Some (Inl f)
     | Inr (ret, c', log') \<Rightarrow>
         if ret \<noteq> 0 then
           Some (Inr (Some (ret, i), db\<lparr>connections := (connections db)[i := c']\<rparr>, log'))
         else if (i + 1) mod length (connections db) \<noteq> start then
           ring_walk E (db\<lparr>connections := (connections db)[i := c']\<rparr>) query start
             ((i + 1) mod length (connections db)) log'
         else
           Some (Inr (None, db\<lparr>connections := (connections db)[i := c']\<rparr>, log')))"

declare ring_walk.simps [code]

text \<open>
  The outer loop \<^verbatim>\<open>for (reset = 0;; reset++)\<close>: a walk of the ring; if it found nothing
  and \<open>reset\<close> is still 0, every delay is set to \<^verbatim>\<open>CONNECT_RESET_DELAY\<close> and the ring is
  walked again. The result is the return value, \<^verbatim>\<open>*conn_r\<close> as an index into the buffer
  (\<open>None\<close> when it was never assigned), the handle and the log.
\<close>

function do_query_passes ::
  "env \<Rightarrow> mysql_db \<Rightarrow> string \<Rightarrow> nat \<Rightarrow> int \<Rightarrow> event list
    \<Rightarrow> (failure + (int \<times> nat option \<times> mysql_db \<times> event list)) option" where
  "do_query_passes E db query start reset log =
    (case ring_walk E db query start start log of
       None \<Rightarrow> None
     | Some (Inl f) \<Rightarrow> Some (Inl f)
     | Some (Inr (Some (ret, i), db', log')) \<Rightarrow> Some (Inr (ret, Some i, db', log'))
     | Some (Inr (None, db', log')) \<Rightarrow>
         if reset \<noteq> 0 then Some (Inr (0, None, db', log'))
         else
           do_query_passes E
             (db'\<lparr>connections :=
                    map (\<lambda>c. c\<lparr>connect_delay := CONNECT_RESET_DELAY\<rparr>) (connections db')\<rparr>)
             query start (reset + 1) log')"
  by pat_completeness auto
termination
  by (relation "measure (\<lambda>(E, db, query, start, reset, log). if reset = 0 then 1 else 0)") auto

declare do_query_passes.simps [simp del]

text \<open>
  \<^verbatim>\<open>driver_mysql_do_query\<close>. The cursor is an \<^verbatim>\<open>unsigned int\<close>: it is reduced modulo the
  size of the ring to give the start, and incremented (wrapping at \<open>2^32\<close>).
\<close>

definition driver_mysql_do_query ::
  "env \<Rightarrow> mysql_db \<Rightarrow> string \<Rightarrow> event list
    \<Rightarrow> (failure + (int \<times> nat option \<times> mysql_db \<times> event list)) option" where
  "driver_mysql_do_query E db query log =
    (let size = length (connections db) in
     if size = 0 then Some (Inl Division_by_zero)
     else
       let start = unat (next_query_connection db) mod size;
           db1 = db\<lparr>next_query_connection := next_query_connection db + 1\<rparr>
       in do_query_passes E db1 query start 0 log)"

text \<open>\<^verbatim>\<open>driver_mysql_exec\<close>: the outcome of the query is dropped.\<close>

definition driver_mysql_exec ::
  "env \<Rightarrow> mysql_db \<Rightarrow> string \<Rightarrow> event list \<Rightarrow> (failure + (mysql_db \<times> event list)) option" where
  "driver_mysql_exec E db query log =
    (case driver_mysql_do_query E db query log of
       None \<Rightarrow> None
     | Some (Inl f) \<Rightarrow> Some (Inl f)
     | Some (Inr (ret, conn_r, db', log')) \<Rightarrow> Some (Inr (db', log')))"

subsection \<open>Results\<close>

text \<open>The two function tables of the driver.\<close>

definition driver_mysql_result :: sql_result where
  "driver_mysql_result =
    \<lparr>next_row = Some Driver_mysql_result_next_row,
     get_fields_count = Some Driver_mysql_result_get_fields_count,
     get_field_name = Some Driver_mysql_result_get_field_name,
     find_field = Some Driver_mysql_result_find_field,
     get_field_value = Some Driver_mysql_result_get_field_value,
     find_field_value = Some Driver_mysql_result_find_field_value,
     get_values = Some Driver_mysql_result_get_values,
     get_error = Some Driver_mysql_result_get_error\<rparr>"

definition driver_mysql_error_result :: sql_result where
  "driver_mysql_error_result =
    \<lparr>next_row = Some Driver_mysql_result_error_next_row,
     get_fields_count = None,
     get_field_name = None,
     find_field = None,
     get_field_value = None,
     find_field_value = None,
     get_values = None,
     get_error = Some Driver_mysql_result_get_error\<rparr>"

text \<open>\<^verbatim>\<open>memset(&result, 0, sizeof(result))\<close> followed by the assignment of the table.\<close>

definition zeroed_result :: "sql_result \<Rightarrow> mysql_result" where
  "zeroed_result t =
    \<lparr>api = t, conn = None, result = None, row = None, result_fields = None, fields_count = 0\<rparr>"

text \<open>
  \<^verbatim>\<open>driver_mysql_query\<close>. The callback is the caller's code: its call is logged with the
  result object it is given. The \<^verbatim>\<open>switch\<close> has no default, so any other return value
  falls through to the error result, as \<open>-1\<close> does.
\<close>

definition driver_mysql_query ::
  "env \<Rightarrow> mysql_db \<Rightarrow> string \<Rightarrow> event list \<Rightarrow> (failure + (mysql_db \<times> event list)) option" where
  "driver_mysql_query E db query log =
    (case driver_mysql_do_query E db query log of
       None \<Rightarrow> None
     | Some (Inl f) \<Rightarrow> Some (Inl f)
     | Some (Inr (ret, conn_r, db1, log1)) \<Rightarrow>
         if ret = 0 then Some (Inr (db1, log1 @ [Callback_call Sql_not_connected_result]))
         else
           let error_result = (\<lambda>db2 log2.
                 Some (Inr (db2, log2 @
                   [Callback_call (Mysql_result
                      ((zeroed_result driver_mysql_error_result)
                         \<lparr>conn := map_option (\<lambda>i. connections db2 ! i) conn_r\<rparr>))])))
           in
           if ret = 1 then
             (case conn_r of
                None \<Rightarrow> Some (Inl Null_pointer)
              | Some i \<Rightarrow>
                  let c = connections db1 ! i;
                      log2 = log1 @ [Store_result_call (host c)]
                  in
                  (case mysql_store_result_reply E (length log1) (host c) of
                     Store_null e msg \<Rightarrow>
                       error_result
                         (db1\<lparr>connections := (connections db1)
                                [i := c\<lparr>mysql := \<lparr>mysql_errno = e, mysql_error = msg\<rparr>\<rparr>]\<rparr>)
                         log2
                   | Stored res \<Rightarrow>
                       Some (Inr (db1, log2 @
                         [Callback_call (Mysql_result
                            ((zeroed_result driver_mysql_result)
                               \<lparr>conn := Some c, result := Some res\<rparr>)),
                          Free_result_call]))))
           else error_result db1 log1)"

text \<open>
  \<^verbatim>\<open>mysql_fetch_row\<close> of the client library on a result set and the handle it belongs to:
  the row delivered (\<open>None\<close> is \<^verbatim>\<open>NULL\<close>), what is left, and the handle.
\<close>

definition mysql_fetch_row :: "MYSQL_RES \<Rightarrow> MYSQL \<Rightarrow> string list option \<times> MYSQL_RES \<times> MYSQL" where
  "mysql_fetch_row res m =
    (case res_rows res of
       [] \<Rightarrow> (None, res, m)
     | Fetch_row r # rest \<Rightarrow> (Some r, res\<lparr>res_rows := rest\<rparr>, m)
     | Fetch_fault e msg # rest \<Rightarrow>
         (None, res\<lparr>res_rows := rest\<rparr>, \<lparr>mysql_errno = e, mysql_error = msg\<rparr>))"

text \<open>\<^verbatim>\<open>driver_mysql_result_next_row\<close>: \<open>1\<close> is a row, \<open>0\<close> the end, \<open>-1\<close> an error.\<close>

definition driver_mysql_result_next_row :: "mysql_result \<Rightarrow> failure + (int \<times> mysql_result)" where
  "driver_mysql_result_next_row r =
    (case (result r, conn r) of
       (Some res, Some c) \<Rightarrow>
         (case mysql_fetch_row res (mysql c) of
            (rw, res', m') \<Rightarrow>
              let r' = r\<lparr>row := rw, result := Some res', conn := Some (c\<lparr>mysql := m'\<rparr>)\<rparr>
              in
              if rw \<noteq> None then Inr (1, r')
              else Inr (if mysql_errno m' \<noteq> 0 then - 1 else 0, r'))
     | _ \<Rightarrow> Inl Null_pointer)"

definition driver_mysql_result_fetch_fields :: "mysql_result \<Rightarrow> failure + mysql_result" where
  "driver_mysql_result_fetch_fields r =
    (if result_fields r \<noteq> None then Inr r
     else
       (case result r of
          None \<Rightarrow> Inl Null_pointer
        | Some res \<Rightarrow>
            Inr (r\<lparr>fields_count := of_nat (length (res_fields res)),
                   result_fields := Some (res_fields res)\<rparr>)))"

definition driver_mysql_result_get_fields_count ::
  "mysql_result \<Rightarrow> failure + (uint \<times> mysql_result)" where
  "driver_mysql_result_get_fields_count r =
    (case driver_mysql_result_fetch_fields r of
       Inl f \<Rightarrow> Inl f
     | Inr r' \<Rightarrow> Inr (fields_count r', r'))"

definition driver_mysql_result_get_error :: "mysql_result \<Rightarrow> failure + string" where
  "driver_mysql_result_get_error r =
    (case conn r of None \<Rightarrow> Inl Null_pointer | Some c \<Rightarrow> Inr (mysql_error (mysql c)))"

definition driver_mysql_result_error_next_row :: "mysql_result \<Rightarrow> int" where
  "driver_mysql_result_error_next_row r = - 1"

text \<open>
  Modelled from the spec: the calls \<^verbatim>\<open>next_row()\<close>, \<^verbatim>\<open>field_count()\<close> and the error
  accessor of a Result go through the result's function table (the wrappers of sql-api are
  not under src/). Calling through a \<^verbatim>\<open>NULL\<close> slot is a crash.
\<close>

definition sql_result_next_row :: "mysql_result \<Rightarrow> failure + (int \<times> mysql_result)" where
  "sql_result_next_row r =
    (case next_row (api r) of
       None \<Rightarrow> Inl Null_pointer
     | Some Driver_mysql_result_next_row \<Rightarrow> driver_mysql_result_next_row r
     | Some Driver_mysql_result_error_next_row \<Rightarrow> Inr (driver_mysql_result_error_next_row r, r))"

definition sql_result_get_fields_count :: "mysql_result \<Rightarrow> failure + (uint \<times> mysql_result)" where
  "sql_result_get_fields_count r =
    (case get_fields_count (api r) of
       None \<Rightarrow> Inl Null_pointer
     | Some Driver_mysql_result_get_fields_count \<Rightarrow> driver_mysql_result_get_fields_count r)"

definition sql_result_get_error :: "mysql_result \<Rightarrow> failure + string" where
  "sql_result_get_error r =
    (case get_error (api r) of
       None \<Rightarrow> Inl Null_pointer
     | Some Driver_mysql_result_get_error \<Rightarrow> driver_mysql_result_get_error r)"

subsection \<open>Reading the log\<close>

text \<open>The kinds of events that the properties count.\<close>

fun is_query :: "event \<Rightarrow> bool" where
  "is_query (Query_call h q) = True"
| "is_query _ = False"

fun is_callback :: "event \<Rightarrow> bool" where
  "is_callback (Callback_call a) = True"
| "is_callback _ = False"

fun is_real_connect :: "event \<Rightarrow> bool" where
  "is_real_connect (Real_connect_call h) = True"
| "is_real_connect _ = False"

text \<open>The slots the dispatcher tried, in order.\<close>

fun slots_tried :: "event list \<Rightarrow> nat list" where
  "slots_tried [] = []"
| "slots_tried (Slot_tried i # es) = i # slots_tried es"
| "slots_tried (e # es) = slots_tried es"

text \<open>The results the callback was called with, in order.\<close>

fun callback_args :: "event list \<Rightarrow> callback_arg list" where
  "callback_args [] = []"
| "callback_args (Callback_call a # es) = a # callback_args es"
| "callback_args (e # es) = callback_args es"

text \<open>
  The one fatal error of connecting: SSL is asked for (\<^verbatim>\<open>ssl_ca\<close> or \<^verbatim>\<open>ssl_ca_path\<close>
  is set) in a build without \<^verbatim>\<open>HAVE_MYSQL_SSL\<close>.
\<close>

definition ssl_unsupported :: "env \<Rightarrow> mysql_db \<Rightarrow> bool" where
  "ssl_unsupported E db = (\<not> HAVE_MYSQL_SSL E \<and> (ssl_ca db, ssl_ca_path db) \<noteq> (None, None))"

text \<open>
  The connection that answered a dispatch with \<open>ret \<noteq> 0\<close>: it is connected, and when the
  query was accepted (\<open>ret = 1\<close>) its handle reports no error.
\<close>

definition served :: "int \<Rightarrow> mysql_connection \<Rightarrow> bool" where
  "served ret c = (connected c \<and> (ret = 1 \<longrightarrow> mysql_errno (mysql c) = 0))"

text \<open>One full pass over a ring of \<open>n\<close> slots that starts at \<open>start\<close>.\<close>

definition ring_order :: "nat \<Rightarrow> nat \<Rightarrow> nat list" where
  "ring_order n start = map (\<lambda>j. (start + j) mod n) [0..<n]"

subsection \<open>Runs of calls\<close>

text \<open>
  \<open>m\<close> calls of \<^verbatim>\<open>driver_mysql_connect\<close> on one connection, one after the other: the
  values returned, the connection and the log at the end.
\<close>

fun connect_repeat ::
  "env \<Rightarrow> mysql_db \<Rightarrow> nat \<Rightarrow> mysql_connection \<Rightarrow> event list
    \<Rightarrow> failure + (bool list \<times> mysql_connection \<times> event list)" where
  "connect_repeat E db 0 c log = Inr ([], c, log)"
| "connect_repeat E db (Suc m) c log =
    (case driver_mysql_connect E db c log of
       Inl f \<Rightarrow> Inl f
     | Inr (ok, c1, log1) \<Rightarrow>
         (case connect_repeat E db m c1 log1 of
            Inl f \<Rightarrow> Inl f
          | Inr (oks, c2, log2) \<Rightarrow> Inr (ok # oks, c2, log2)))"

text \<open>The state of a connection that has failed \<open>n\<close> times in a row.\<close>

definition failed_times :: "nat \<Rightarrow> mysql_connection \<Rightarrow> bool" where
  "failed_times n c =
    (\<not> connected c \<and> connect_failure_count c = of_nat n
     \<and> unat (connect_delay c) = (if n = 0 then 1 else min (5 ^ (n - 1)) 1800))"

text \<open>
  \<open>n\<close> calls of \<^verbatim>\<open>driver_mysql_result_next_row\<close> on one result, one after the other: the
  values returned and the result at the end.
\<close>

fun next_row_calls :: "nat \<Rightarrow> mysql_result \<Rightarrow> failure + (int list \<times> mysql_result)" where
  "next_row_calls 0 r = Inr ([], r)"
| "next_row_calls (Suc n) r =
    (case driver_mysql_result_next_row r of
       Inl f \<Rightarrow> Inl f
     | Inr (code, r1) \<Rightarrow>
         (case next_row_calls n r1 of
            Inl f \<Rightarrow> Inl f
          | Inr (codes, r2) \<Rightarrow> Inr (code # codes, r2)))"

subsection \<open>Reading the tokens of a connect string\<close>

text \<open>
  The name and the value of a token, the keys the parser knows, and the hosts a list of
  tokens declares, in order.
\<close>

definition token_name :: "string \<Rightarrow> string" where
  "token_name t = takeWhile (\<lambda>c. c \<noteq> CHR ''='') t"

definition token_value :: "string \<Rightarrow> string" where
  "token_value t = tl (dropWhile (\<lambda>c. c \<noteq> CHR ''='') t)"

definition known_keys :: "string list" where
  "known_keys =
    [''host'', ''hostaddr'', ''user'', ''password'', ''dbname'', ''port'', ''client_flags'',
     ''ssl_cert'', ''ssl_key'', ''ssl_ca'', ''ssl_ca_path'', ''ssl_cipher'']"

definition valid_token :: "string \<Rightarrow> bool" where
  "valid_token t = (CHR ''='' \<in> set t \<and> token_name t \<in> set known_keys)"

definition is_host_token :: "string \<Rightarrow> bool" where
  "is_host_token t =
    (CHR ''='' \<in> set t \<and> (token_name t = ''host'' \<or> token_name t = ''hostaddr''))"

definition declared_hosts :: "string list \<Rightarrow> string list" where
  "declared_hosts tokens = map token_value (filter is_host_token tokens)"

definition asks_ssl :: "string list \<Rightarrow> bool" where
  "asks_ssl tokens =
    (\<exists>t \<in> set tokens. token_name t = ''ssl_ca'' \<or> token_name t = ''ssl_ca_path'')"

text \<open>
  One turn of the loop of \<^verbatim>\<open>driver_mysql_parse_connect_string\<close>, as a function of its
  own (\<open>parse_connect_args_Cons\<close> shows that the loop is made of these turns).
\<close>

definition token_step ::
  "env \<Rightarrow> mysql_db \<Rightarrow> string \<Rightarrow> event list \<Rightarrow> failure + (mysql_db \<times> event list)" where
  "token_step E db arg log =
    (if CHR ''='' \<notin> set arg then
       Inl (Fatal (''mysql: Missing value in connect string: '' @ arg))
     else if token_name arg = ''host'' \<or> token_name arg = ''hostaddr'' then
       driver_mysql_connection_add E db (token_value arg) log
     else if token_name arg = ''user'' then Inr (db\<lparr>user := Some (token_value arg)\<rparr>, log)
     else if token_name arg = ''password'' then
       Inr (db\<lparr>password := Some (token_value arg)\<rparr>, log)
     else if token_name arg = ''dbname'' then Inr (db\<lparr>dbname := Some (token_value arg)\<rparr>, log)
     else if token_name arg = ''port'' then
       Inr (db\<lparr>port := word_of_int (atoi (token_value arg))\<rparr>, log)
     else if token_name arg = ''client_flags'' then
       Inr (db\<lparr>client_flags := word_of_int (atoi (token_value arg))\<rparr>, log)
     else if token_name arg = ''ssl_cert'' then
       Inr (db\<lparr>ssl_cert := Some (token_value arg)\<rparr>, log)
     else if token_name arg = ''ssl_key'' then Inr (db\<lparr>ssl_key := Some (token_value arg)\<rparr>, log)
     else if token_name arg = ''ssl_ca'' then Inr (db\<lparr>ssl_ca := Some (token_value arg)\<rparr>, log)
     else if token_name arg = ''ssl_ca_path'' then
       Inr (db\<lparr>ssl_ca_path := Some (token_value arg)\<rparr>, log)
     else if token_name arg = ''ssl_cipher'' then
       Inr (db\<lparr>ssl_cipher := Some (token_value arg)\<rparr>, log)
     else Inl (Fatal (''mysql: Unknown connect string: '' @ token_name arg)))"

text \<open>
  \<open>m\<close> calls of \<^verbatim>\<open>driver_mysql_do_query\<close> on one handle, one after the other: the
  connection each call chose (\<^verbatim>\<open>*conn_r\<close>), the handle and the log at the end.
\<close>

fun dispatch_repeat ::
  "env \<Rightarrow> nat \<Rightarrow> mysql_db \<Rightarrow> string \<Rightarrow> event list
    \<Rightarrow> (failure + (nat option list \<times> mysql_db \<times> event list)) option" where
  "dispatch_repeat E 0 db query log = Some (Inr ([], db, log))"
| "dispatch_repeat E (Suc m) db query log =
    (case driver_mysql_do_query E db query log of
       None \<Rightarrow> None
     | Some (Inl f) \<Rightarrow> Some (Inl f)
     | Some (Inr (ret, conn_r, db1, log1)) \<Rightarrow>
         (case dispatch_repeat E m db1 query log1 of
            None \<Rightarrow> None
          | Some (Inl f) \<Rightarrow> Some (Inl f)
          | Some (Inr (chosen, db2, log2)) \<Rightarrow> Some (Inr (conn_r # chosen, db2, log2))))"

subsection \<open>States and environments used as examples\<close>

text \<open>A connection as \<^verbatim>\<open>driver_mysql_connection_add\<close> leaves it.\<close>

definition conn_new :: "string \<Rightarrow> mysql_connection" where
  "conn_new h =
    \<lparr>mysql = \<lparr>mysql_errno = 0, mysql_error = []\<rparr>, host = h,
     connect_delay = CONNECT_MIN_DELAY, connect_failure_count = 0, last_connect = 0,
     connected = False, ssl_set = False\<rparr>"

text \<open>Every server is up and accepts every query; the clock stands at 100.\<close>

definition E_up :: env where
  "E_up =
    \<lparr>HAVE_MYSQL_SSL = True,
     time_reply = (\<lambda>k. 100),
     mysql_init_reply = (\<lambda>k. True),
     mysql_real_connect_reply = (\<lambda>k h. Ok),
     mysql_query_reply = (\<lambda>k h q. Ok),
     mysql_store_result_reply = (\<lambda>k h. Stored \<lparr>res_rows = [], res_fields = []\<rparr>)\<rparr>"

text \<open>Every server is down; the clock advances by 100 with every event.\<close>

definition E_down :: env where
  "E_down =
    \<lparr>HAVE_MYSQL_SSL = True,
     time_reply = (\<lambda>k. 100 * (int k + 1)),
     mysql_init_reply = (\<lambda>k. True),
     mysql_real_connect_reply = (\<lambda>k h. Failed 2003 ''down''),
     mysql_query_reply = (\<lambda>k h q. Ok),
     mysql_store_result_reply = (\<lambda>k h. Stored \<lparr>res_rows = [], res_fields = []\<rparr>)\<rparr>"

text \<open>A handle as the connect string leaves it, with the given hosts.\<close>

definition db_of :: "string list \<Rightarrow> mysql_db" where
  "db_of hs = new_mysql_db\<lparr>connections := map conn_new hs\<rparr>"

text \<open>Every server is up, but no statement yields a result set.\<close>

definition E_no_result :: env where
  "E_no_result = E_up\<lparr>mysql_store_result_reply := (\<lambda>k h. Store_null 0 [])\<rparr>"

text \<open>A connection that is connected since time \<open>t\<close>.\<close>

definition conn_up :: "string \<Rightarrow> time_t \<Rightarrow> mysql_connection" where
  "conn_up h t = (conn_new h)\<lparr>connected := True, last_connect := t\<rparr>"

definition db_up :: "string list \<Rightarrow> mysql_db" where
  "db_up hs = new_mysql_db\<lparr>connections := map (\<lambda>h. conn_up h 50) hs\<rparr>"

text \<open>Every query loses the connection; connecting works; the clock stands at 100.\<close>

definition E_lost :: env where
  "E_lost = E_up\<lparr>mysql_query_reply := (\<lambda>k h q. Failed CR_SERVER_LOST ''lost'')\<rparr>"

text \<open>The first query loses the connection, every later one is accepted.\<close>

definition E_flap :: env where
  "E_flap = E_up\<lparr>mysql_query_reply :=
      (\<lambda>k h q. if k = 0 then Failed CR_SERVER_GONE_ERROR ''gone'' else Ok)\<rparr>"

text \<open>The server refuses every query as malformed.\<close>

definition E_refuse :: env where
  "E_refuse = E_up\<lparr>mysql_query_reply := (\<lambda>k h q. Failed 1064 ''syntax error'')\<rparr>"

text \<open>A result over the given source, on a connection whose handle reports no error.\<close>

definition rows_result :: "fetch list \<Rightarrow> mysql_result" where
  "rows_result fs =
    (zeroed_result driver_mysql_result)
      \<lparr>conn := Some (conn_up ''a'' 50), result := Some \<lparr>res_rows = fs, res_fields = [''k'', ''v'']\<rparr>\<rparr>"

text \<open>A build without SSL support; every server is up.\<close>

definition E_no_ssl :: env where
  "E_no_ssl = E_up\<lparr>HAVE_MYSQL_SSL := False\<rparr>"

section \<open>Properties\<close>

subsection \<open>Auxiliary facts\<close>

text \<open>What a call of connect, and of a query on one connection, leaves behind.\<close>

lemma connect_Inr:
  assumes "driver_mysql_connect E db c log = Inr (ok, c', log')"
  shows "host c' = host c \<and> connected c' = ok
       \<and> (\<exists>ev. log' = log @ ev
              \<and> set ev \<subseteq> {Time_call, Ssl_set_call (host c), Real_connect_call (host c)})"
  using assms
  by (auto simp: driver_mysql_connect_def Let_def split: if_splits reply.splits)

lemma connect_Inl:
  assumes "driver_mysql_connect E db c log = Inl f"
  shows "ssl_unsupported E db"
  using assms
  by (auto simp: driver_mysql_connect_def ssl_unsupported_def Let_def
      split: if_splits reply.splits)

lemma cdq_Inl:
  assumes "connection_do_query_loop E db i c q log = Inl f"
  shows "ssl_unsupported E db"
  using assms
proof (induction E db i c q log rule: connection_do_query_loop.induct)
  case (1 E db i c query log)
  show ?case
  proof (cases "driver_mysql_connect E db c log")
    case (Inl g)
    then show ?thesis by (rule connect_Inl)
  next
    case (Inr x)
    then obtain ok c1 log1 where con: "driver_mysql_connect E db c log = Inr (ok, c1, log1)"
      by (cases x) auto
    define r where "r = mysql_query_reply E (length log1) (host c1) query"
    define c2 where "c2 = c1\<lparr>mysql := set_reply r\<rparr>"
    define log2 where "log2 = log1 @ [Query_call (host c1) query]"
    have i2: "i < 2" and ok: "\<not> \<not> ok" and nok: "r \<noteq> Ok"
      and lost: "mysql_errno (mysql c2) = CR_SERVER_GONE_ERROR
                    \<or> mysql_errno (mysql c2) = CR_SERVER_LOST"
      and rec: "connection_do_query_loop E db (i + 1) (c2\<lparr>connected := False\<rparr>) query log2
                  = Inl f"
      using "1.prems" con
      by (auto simp: connection_do_query_loop.simps [of E db i c] r_def c2_def log2_def Let_def
          split: if_splits)
    from "1.IH" [OF i2 con refl refl ok r_def c2_def log2_def nok lost rec]
    show ?thesis .
  qed
qed

lemma cdq_Inr:
  assumes "connection_do_query_loop E db i c q log = Inr (ret, c', log')"
  shows "host c' = host c \<and> (ret = 0 \<or> ret = 1 \<or> ret = - 1)
       \<and> (\<exists>ev. log' = log @ ev
              \<and> set ev \<subseteq> {Time_call, Ssl_set_call (host c), Real_connect_call (host c),
                           Query_call (host c) q}
              \<and> int (length (filter is_query ev)) \<le> max 0 (2 - i))
       \<and> (i < 2 \<longrightarrow> connected c' = (ret \<noteq> 0))
       \<and> (ret = 1 \<longrightarrow> mysql_errno (mysql c') = 0)"
  using assms
proof (induction E db i c q log arbitrary: ret c' log' rule: connection_do_query_loop.induct)
  case (1 E db i c query log)
  show ?case
  proof (cases "i < 2")
    case False
    with "1.prems" show ?thesis by (simp add: connection_do_query_loop.simps)
  next
    case i2: True
    show ?thesis
    proof (cases "driver_mysql_connect E db c log")
      case (Inl f)
      with "1.prems" i2 show ?thesis by (simp add: connection_do_query_loop.simps)
    next
      case (Inr x)
      then obtain ok c1 log1 where con: "driver_mysql_connect E db c log = Inr (ok, c1, log1)"
        by (cases x) auto
      from connect_Inr [OF con] obtain ev1 where
        h1: "host c1 = host c" and k1: "connected c1 = ok" and l1: "log1 = log @ ev1"
        and s1: "set ev1 \<subseteq> {Time_call, Ssl_set_call (host c), Real_connect_call (host c)}"
        by blast
      have q1: "filter is_query ev1 = []"
        using s1 by (auto simp: filter_empty_conv)
      show ?thesis
      proof (cases ok)
        case False
        with "1.prems" i2 con l1 s1 q1 h1 k1 show ?thesis
          by (auto simp: connection_do_query_loop.simps [of E db i c])
      next
        case ok: True
        define r where "r = mysql_query_reply E (length log1) (host c1) query"
        define c2 where "c2 = c1\<lparr>mysql := set_reply r\<rparr>"
        define log2 where "log2 = log1 @ [Query_call (host c1) query]"
        show ?thesis
        proof (cases "r = Ok")
          case True
          with "1.prems" i2 con ok l1 s1 q1 h1 k1 show ?thesis
            by (auto simp: connection_do_query_loop.simps [of E db i c] r_def Let_def set_reply_def)
        next
          case nok: False
          show ?thesis
          proof (cases "mysql_errno (mysql c2) = CR_SERVER_GONE_ERROR
                    \<or> mysql_errno (mysql c2) = CR_SERVER_LOST")
            case False
            with "1.prems" i2 con ok l1 s1 q1 h1 k1 nok show ?thesis
              by (auto simp: connection_do_query_loop.simps [of E db i c] r_def c2_def Let_def)
          next
            case lost: True
            have rec: "connection_do_query_loop E db (i + 1) (c2\<lparr>connected := False\<rparr>) query log2
                  = Inr (ret, c', log')"
              using "1.prems" i2 con ok nok lost
              by (simp add: connection_do_query_loop.simps [of E db i c] r_def c2_def log2_def Let_def)
            have nnok: "\<not> \<not> ok" using ok by simp
            from "1.IH" [OF i2 con refl refl nnok r_def c2_def log2_def nok lost rec]
            obtain ev2 where
              a: "host c' = host (c2\<lparr>connected := False\<rparr>)" "ret = 0 \<or> ret = 1 \<or> ret = - 1"
              and b: "log' = log2 @ ev2"
                "set ev2 \<subseteq> {Time_call, Ssl_set_call (host (c2\<lparr>connected := False\<rparr>)),
                    Real_connect_call (host (c2\<lparr>connected := False\<rparr>)),
                    Query_call (host (c2\<lparr>connected := False\<rparr>)) query}"
                "int (length (filter is_query ev2)) \<le> max 0 (2 - (i + 1))"
              and c: "i + 1 < 2 \<longrightarrow> connected c' = (ret \<noteq> 0)"
              and m: "ret = 1 \<longrightarrow> mysql_errno (mysql c') = 0"
              by blast
            have hc2: "host (c2\<lparr>connected := False\<rparr>) = host c" by (simp add: c2_def h1)
            have i1: "i + 1 < 2 \<or> (i = 1)" using i2 by arith
            have last: "i = 1 \<Longrightarrow> ret = 0 \<and> c' = c2\<lparr>connected := False\<rparr>"
              using rec by (simp add: connection_do_query_loop.simps [of E db 2])
            have conn': "connected c' = (ret \<noteq> 0)"
              using i1 c last by auto
            have "log' = log @ (ev1 @ Query_call (host c) query # ev2)"
              using b(1) l1 by (simp add: log2_def h1)
            moreover have "set (ev1 @ Query_call (host c) query # ev2)
                 \<subseteq> {Time_call, Ssl_set_call (host c), Real_connect_call (host c),
                           Query_call (host c) query}"
              using s1 b(2) hc2 by auto
            moreover have "int (length (filter is_query (ev1 @ Query_call (host c) query # ev2)))
                 \<le> max 0 (2 - i)"
              using q1 b(3) i2 by simp
            ultimately have ex: "\<exists>ev. log' = log @ ev
              \<and> set ev \<subseteq> {Time_call, Ssl_set_call (host c), Real_connect_call (host c),
                           Query_call (host c) query}
              \<and> int (length (filter is_query ev)) \<le> max 0 (2 - i)"
              by (intro exI [of _ "ev1 @ Query_call (host c) query # ev2"]) simp
            from a(1) hc2 have "host c' = host c" by simp
            with a(2) ex conn' m show ?thesis by simp
          qed
        qed
      qed
    qed
  qed
qed

text \<open>One pass of the dispatcher over the ring, entered at offset \<open>j\<close> from the start.\<close>

lemma slots_tried_append: "slots_tried (xs @ ys) = slots_tried xs @ slots_tried ys"
  by (induction xs rule: slots_tried.induct) simp_all

lemma slots_tried_none:
  "set ev \<subseteq> {Time_call, Ssl_set_call h, Real_connect_call h, Query_call h q}
    \<Longrightarrow> slots_tried ev = []"
  by (induction ev rule: slots_tried.induct) auto

lemma no_callback:
  "set ev \<subseteq> {Time_call, Ssl_set_call h, Real_connect_call h, Query_call h q}
    \<Longrightarrow> filter is_callback ev = []"
  by (auto simp: filter_empty_conv)

lemma ring_next:
  assumes "start < n"
  shows "((start + j) mod n + 1) mod n = (start + Suc j) mod n"
  by (simp add: mod_Suc_eq)

lemma ring_not_start:
  assumes "start < n" "Suc j < n"
  shows "(start + Suc j) mod n \<noteq> start"
proof (cases "start + Suc j < n")
  case True
  then show ?thesis by simp
next
  case False
  then have "(start + Suc j) mod n = start + Suc j - n"
    using assms by (simp add: mod_if)
  then show ?thesis using assms False by arith
qed

lemma ring_back:
  assumes "start < (n::nat)"
  shows "(start + n) mod n = start"
  using assms by simp

lemma hosts_update:
  assumes "i < length cs" "host c' = host (cs ! i)"
  shows "map host (cs[i := c']) = map host cs"
  using assms by (simp add: map_update list_update_same_conv)

lemma ring_walk_pass:
  assumes "length (connections db) = n" "start < n" "j < n"
  shows "\<exists>res. ring_walk E db q start ((start + j) mod n) log = Some res \<and>
     (case res of
        Inl f \<Rightarrow> ssl_unsupported E db
      | Inr (found, db', log') \<Rightarrow>
          db' = db\<lparr>connections := connections db'\<rparr>
          \<and> length (connections db') = n
          \<and> map host (connections db') = map host (connections db)
          \<and> (\<exists>ev. log' = log @ ev \<and> filter is_callback ev = []
               \<and> (case found of
                     None \<Rightarrow> slots_tried ev = map (\<lambda>x. (start + x) mod n) [j..<n]
                   | Some (ret, i) \<Rightarrow>
                       (ret = 1 \<or> ret = - 1) \<and> served ret (connections db' ! i)
                       \<and> (\<exists>j'. j \<le> j' \<and> j' < n \<and> i = (start + j') mod n
                             \<and> slots_tried ev = map (\<lambda>x. (start + x) mod n) [j..<Suc j']))))"
  using assms
proof (induction d \<equiv> "n - Suc j" arbitrary: j db log)
  case 0
  then have jn: "Suc j = n" by arith
  define i where "i = (start + j) mod n"
  have i_lt: "i < n" using 0 by (simp add: i_def)
  have nxt: "(i + 1) mod length (connections db) = start"
    using ring_next [OF \<open>start < n\<close>, of j] jn \<open>start < n\<close> 0(2) by (simp add: i_def)
  show ?case
  proof (cases "driver_mysql_connection_do_query E db (connections db ! i) q (log @ [Slot_tried i])")
    case (Inl f)
    then show ?thesis
      using cdq_Inl [OF Inl [unfolded driver_mysql_connection_do_query_def]]
      by (simp add: ring_walk.simps [of E db q start i] i_def [symmetric])
  next
    case (Inr x)
    then obtain ret c' log1 where
      cdq: "driver_mysql_connection_do_query E db (connections db ! i) q (log @ [Slot_tried i])
            = Inr (ret, c', log1)"
      by (cases x) auto
    from cdq_Inr [OF cdq [unfolded driver_mysql_connection_do_query_def]]
    obtain ev1 where h: "host c' = host (connections db ! i)"
      and r: "ret = 0 \<or> ret = 1 \<or> ret = - 1"
      and l: "log1 = (log @ [Slot_tried i]) @ ev1"
      and s: "set ev1 \<subseteq> {Time_call, Ssl_set_call (host (connections db ! i)),
                Real_connect_call (host (connections db ! i)),
                Query_call (host (connections db ! i)) q}"
      and c: "connected c' = (ret \<noteq> 0)"
      and m: "ret = 1 \<longrightarrow> mysql_errno (mysql c') = 0"
      by auto
    have ev: "log1 = log @ (Slot_tried i # ev1)" "filter is_callback (Slot_tried i # ev1) = []"
      "slots_tried (Slot_tried i # ev1) = [i]"
      using l no_callback [OF s] slots_tried_none [OF s] by simp_all
    have up: "[j..<n] = [j]" "[j..<Suc j] = [j]" using jn by auto
    have hs: "map host ((connections db)[i := c']) = map host (connections db)"
      using hosts_update [of i "connections db" c'] h i_lt 0(2) by simp
    show ?thesis
    proof (cases "ret = 0")
      case True
      have "ring_walk E db q start ((start + j) mod n) log
          = Some (Inr (None, db\<lparr>connections := (connections db)[i := c']\<rparr>, log1))"
        using cdq True nxt
        by (simp add: ring_walk.simps [of E db q start i] i_def [symmetric])
      then show ?thesis using ev hs 0(2) up by (simp add: i_def)
    next
      case False
      have "ring_walk E db q start ((start + j) mod n) log
          = Some (Inr (Some (ret, i), db\<lparr>connections := (connections db)[i := c']\<rparr>, log1))"
        using cdq False
        by (simp add: ring_walk.simps [of E db q start i] i_def [symmetric])
      moreover have "\<exists>j'. j \<le> j' \<and> j' < n \<and> i = (start + j') mod n
            \<and> slots_tried (Slot_tried i # ev1) = map (\<lambda>x. (start + x) mod n) [j..<Suc j']"
        using ev(3) up \<open>j < n\<close> by (intro exI [of _ j]) (simp add: i_def)
      ultimately show ?thesis using ev(1,2) hs 0(2) r False c m i_lt
        by (auto intro!: exI [of _ "Slot_tried i # ev1"] simp: served_def)
    qed
  qed
next
  case (Suc d)
  then have jn: "Suc j < n" by arith
  define i where "i = (start + j) mod n"
  have i_lt: "i < n" using Suc by (simp add: i_def)
  have nxt: "(i + 1) mod length (connections db) = (start + Suc j) mod n"
    using ring_next [OF \<open>start < n\<close>, of j] Suc(3) by (simp add: i_def)
  have nst: "(start + Suc j) mod n \<noteq> start"
    using ring_not_start [OF \<open>start < n\<close> jn] .
  show ?case
  proof (cases "driver_mysql_connection_do_query E db (connections db ! i) q (log @ [Slot_tried i])")
    case (Inl f)
    then show ?thesis
      using cdq_Inl [OF Inl [unfolded driver_mysql_connection_do_query_def]]
      by (simp add: ring_walk.simps [of E db q start i] i_def [symmetric])
  next
    case (Inr x)
    then obtain ret c' log1 where
      cdq: "driver_mysql_connection_do_query E db (connections db ! i) q (log @ [Slot_tried i])
            = Inr (ret, c', log1)"
      by (cases x) auto
    from cdq_Inr [OF cdq [unfolded driver_mysql_connection_do_query_def]]
    obtain ev1 where h: "host c' = host (connections db ! i)"
      and r: "ret = 0 \<or> ret = 1 \<or> ret = - 1"
      and l: "log1 = (log @ [Slot_tried i]) @ ev1"
      and s: "set ev1 \<subseteq> {Time_call, Ssl_set_call (host (connections db ! i)),
                Real_connect_call (host (connections db ! i)),
                Query_call (host (connections db ! i)) q}"
      and c: "connected c' = (ret \<noteq> 0)"
      and m: "ret = 1 \<longrightarrow> mysql_errno (mysql c') = 0"
      by auto
    have ev: "log1 = log @ (Slot_tried i # ev1)" "filter is_callback (Slot_tried i # ev1) = []"
      "slots_tried (Slot_tried i # ev1) = [i]"
      using l no_callback [OF s] slots_tried_none [OF s] by simp_all
    have hs: "map host ((connections db)[i := c']) = map host (connections db)"
      using hosts_update [of i "connections db" c'] h i_lt Suc(3) by simp
    define db1 where "db1 = db\<lparr>connections := (connections db)[i := c']\<rparr>"
    have len1: "length (connections db1) = n" using Suc(3) by (simp add: db1_def)
    show ?thesis
    proof (cases "ret = 0")
      case False
      have "ring_walk E db q start ((start + j) mod n) log
          = Some (Inr (Some (ret, i), db1, log1))"
        using cdq False
        by (simp add: ring_walk.simps [of E db q start i] i_def [symmetric] db1_def)
      moreover have "\<exists>j'. j \<le> j' \<and> j' < n \<and> i = (start + j') mod n
            \<and> slots_tried (Slot_tried i # ev1) = map (\<lambda>x. (start + x) mod n) [j..<Suc j']"
        using ev(3) \<open>j < n\<close> by (intro exI [of _ j]) (simp add: i_def)
      ultimately show ?thesis using ev(1,2) hs Suc(3) r False c m i_lt
        by (auto intro!: exI [of _ "Slot_tried i # ev1"] simp: db1_def served_def)
    next
      case True
      have step: "ring_walk E db q start ((start + j) mod n) log
          = ring_walk E db1 q start ((start + Suc j) mod n) log1"
        using cdq True nxt nst
        by (simp add: ring_walk.simps [of E db q start i] i_def [symmetric] db1_def)
      have d: "d = n - Suc (Suc j)" using Suc(2) by arith
      from Suc(1) [OF d len1 \<open>start < n\<close> jn, of log1]
      obtain res where rw: "ring_walk E db1 q start ((start + Suc j) mod n) log1 = Some res"
        and ok: "(case res of
        Inl f \<Rightarrow> ssl_unsupported E db1
      | Inr (found, db', log') \<Rightarrow>
          db' = db1\<lparr>connections := connections db'\<rparr>
          \<and> length (connections db') = n
          \<and> map host (connections db') = map host (connections db1)
          \<and> (\<exists>ev. log' = log1 @ ev \<and> filter is_callback ev = []
               \<and> (case found of
                     None \<Rightarrow> slots_tried ev = map (\<lambda>x. (start + x) mod n) [Suc j..<n]
                   | Some (ret, i) \<Rightarrow>
                       (ret = 1 \<or> ret = - 1) \<and> served ret (connections db' ! i)
                       \<and> (\<exists>j'. Suc j \<le> j' \<and> j' < n \<and> i = (start + j') mod n
                             \<and> slots_tried ev = map (\<lambda>x. (start + x) mod n) [Suc j..<Suc j']))))"
        by blast
      show ?thesis
      proof (cases res)
        case (Inl f)
        then show ?thesis using step rw ok by (simp add: db1_def ssl_unsupported_def)
      next
        case (Inr y)
        then obtain found db' log' where res: "res = Inr (found, db', log')" by (cases y) auto
        from ok res obtain ev2 where
          a: "db' = db1\<lparr>connections := connections db'\<rparr>" "length (connections db') = n"
             "map host (connections db') = map host (connections db1)"
          and b: "log' = log1 @ ev2" "filter is_callback ev2 = []"
          and f: "(case found of
                     None \<Rightarrow> slots_tried ev2 = map (\<lambda>x. (start + x) mod n) [Suc j..<n]
                   | Some (ret, i) \<Rightarrow>
                       (ret = 1 \<or> ret = - 1) \<and> served ret (connections db' ! i)
                       \<and> (\<exists>j'. Suc j \<le> j' \<and> j' < n \<and> i = (start + j') mod n
                             \<and> slots_tried ev2 = map (\<lambda>x. (start + x) mod n) [Suc j..<Suc j']))"
          by auto
        have a': "db' = db\<lparr>connections := connections db'\<rparr>"
          using a(1) by (simp add: db1_def)
        have hs': "map host (connections db') = map host (connections db)"
          using a(3) hs by (simp add: db1_def)
        have l': "log' = log @ (Slot_tried i # ev1 @ ev2)"
          "filter is_callback (Slot_tried i # ev1 @ ev2) = []"
          "slots_tried (Slot_tried i # ev1 @ ev2) = i # slots_tried ev2"
          using b ev slots_tried_append [of "Slot_tried i # ev1" ev2] by simp_all
        have f': "(case found of
                     None \<Rightarrow> slots_tried (Slot_tried i # ev1 @ ev2) = map (\<lambda>x. (start + x) mod n) [j..<n]
                   | Some (ret, i') \<Rightarrow>
                       (ret = 1 \<or> ret = - 1) \<and> served ret (connections db' ! i')
                       \<and> (\<exists>j'. j \<le> j' \<and> j' < n \<and> i' = (start + j') mod n
                             \<and> slots_tried (Slot_tried i # ev1 @ ev2) = map (\<lambda>x. (start + x) mod n) [j..<Suc j']))"
        proof (cases found)
          case None
          with f l'(3) \<open>j < n\<close> show ?thesis by (simp add: upt_conv_Cons i_def)
        next
          case (Some p)
          then obtain ret' i' where p: "found = Some (ret', i')" by (cases p) auto
          with f obtain j' where
            g: "ret' = 1 \<or> ret' = - 1" "served ret' (connections db' ! i')"
               "Suc j \<le> j'" "j' < n" "i' = (start + j') mod n"
               "slots_tried ev2 = map (\<lambda>x. (start + x) mod n) [Suc j..<Suc j']"
            by auto
          have "slots_tried (Slot_tried i # ev1 @ ev2) = map (\<lambda>x. (start + x) mod n) [j..<Suc j']"
            using l'(3) g(3,6) by (simp add: upt_conv_Cons i_def)
          with g have "\<exists>j'. j \<le> j' \<and> j' < n \<and> i' = (start + j') mod n
                             \<and> slots_tried (Slot_tried i # ev1 @ ev2) = map (\<lambda>x. (start + x) mod n) [j..<Suc j']"
            by (intro exI [of _ j']) simp
          with g(1,2) p show ?thesis by simp
        qed
        have "\<exists>ev. log' = log @ ev \<and> filter is_callback ev = []
               \<and> (case found of
                     None \<Rightarrow> slots_tried ev = map (\<lambda>x. (start + x) mod n) [j..<n]
                   | Some (ret, i) \<Rightarrow>
                       (ret = 1 \<or> ret = - 1) \<and> served ret (connections db' ! i)
                       \<and> (\<exists>j'. j \<le> j' \<and> j' < n \<and> i = (start + j') mod n
                             \<and> slots_tried ev = map (\<lambda>x. (start + x) mod n) [j..<Suc j']))"
          using l'(1,2) f' by (intro exI [of _ "Slot_tried i # ev1 @ ev2"]) simp
        with a' a(2) hs' show ?thesis using step rw res by simp
      qed
    qed
  qed
qed

text \<open>The dispatcher: at most two passes, and what it returns.\<close>

lemma ring_order_take:
  assumes "j' < n"
  shows "map (\<lambda>x. (start + x) mod n) [0..<Suc j'] = take (Suc j') (ring_order n start)"
  proof -
  have "take (Suc j') [0..<n] = [0..<Suc j']"
    using assms by (simp only: take_upt add_0 Suc_leI)
  then show ?thesis
    by (simp only: ring_order_def take_map)
qed

lemma length_ring_order: "length (ring_order n start) = n"
  by (simp add: ring_order_def)

lemma do_query_result:
  assumes ne: "connections db \<noteq> []"
  defines "n \<equiv> length (connections db)"
  defines "start \<equiv> unat (next_query_connection db) mod n"
  shows "\<exists>res. driver_mysql_do_query E db q log = Some res \<and>
     (case res of
        Inl f \<Rightarrow> ssl_unsupported E db
      | Inr (ret, conn_r, db', log') \<Rightarrow>
          db' = db\<lparr>next_query_connection := next_query_connection db + 1,
                   connections := connections db'\<rparr>
          \<and> length (connections db') = n
          \<and> map host (connections db') = map host (connections db)
          \<and> (\<exists>ev. log' = log @ ev \<and> filter is_callback ev = []
               \<and> (if ret = 0 then
                     conn_r = None
                     \<and> slots_tried ev = ring_order n start @ ring_order n start
                   else
                     (ret = 1 \<or> ret = - 1)
                     \<and> (\<exists>i k. conn_r = Some i \<and> i < n \<and> served ret (connections db' ! i)
                           \<and> 0 < k \<and> k \<le> 2 * n
                           \<and> slots_tried ev = take k (ring_order n start @ ring_order n start)
                           \<and> last (slots_tried ev) = i))))"
proof -
  have n0: "0 < n" using ne by (simp add: n_def)
  have st: "start < n" using n0 by (simp add: start_def)
  define db1 where "db1 = db\<lparr>next_query_connection := next_query_connection db + 1\<rparr>"
  have len1: "length (connections db1) = n" by (simp add: db1_def n_def)
  have dq: "driver_mysql_do_query E db q log = do_query_passes E db1 q start 0 log"
    using n0 by (simp add: driver_mysql_do_query_def Let_def n_def start_def db1_def)
  have s0: "(start + 0) mod n = start" using st by simp
  from ring_walk_pass [OF len1 st n0, of E q log] s0
  obtain res1 where rw1: "ring_walk E db1 q start start log = Some res1"
    and ok1: "(case res1 of
        Inl f \<Rightarrow> ssl_unsupported E db1
      | Inr (found, db', log') \<Rightarrow>
          db' = db1\<lparr>connections := connections db'\<rparr>
          \<and> length (connections db') = n
          \<and> map host (connections db') = map host (connections db1)
          \<and> (\<exists>ev. log' = log @ ev \<and> filter is_callback ev = []
               \<and> (case found of
                     None \<Rightarrow> slots_tried ev = map (\<lambda>x. (start + x) mod n) [0..<n]
                   | Some (ret, i) \<Rightarrow>
                       (ret = 1 \<or> ret = - 1) \<and> served ret (connections db' ! i)
                       \<and> (\<exists>j'. 0 \<le> j' \<and> j' < n \<and> i = (start + j') mod n
                             \<and> slots_tried ev = map (\<lambda>x. (start + x) mod n) [0..<Suc j']))))"
    by auto
  show ?thesis
  proof (cases res1)
    case (Inl f)
    then have "ssl_unsupported E db"
      using ok1 by (simp add: db1_def ssl_unsupported_def)
    with Inl show ?thesis using dq rw1
      by (simp add: do_query_passes.simps [of E db1 q start 0])
  next
    case (Inr y)
    then obtain found db2 log2 where res1: "res1 = Inr (found, db2, log2)" by (cases y) auto
    from ok1 res1 obtain ev1 where
      a: "db2 = db1\<lparr>connections := connections db2\<rparr>" "length (connections db2) = n"
         "map host (connections db2) = map host (connections db1)"
      and b: "log2 = log @ ev1" "filter is_callback ev1 = []"
      and f: "(case found of
                     None \<Rightarrow> slots_tried ev1 = map (\<lambda>x. (start + x) mod n) [0..<n]
                   | Some (ret, i) \<Rightarrow>
                       (ret = 1 \<or> ret = - 1) \<and> served ret (connections db2 ! i)
                       \<and> (\<exists>j'. 0 \<le> j' \<and> j' < n \<and> i = (start + j') mod n
                             \<and> slots_tried ev1 = map (\<lambda>x. (start + x) mod n) [0..<Suc j']))"
      by auto
    have a2: "db2 = db\<lparr>next_query_connection := next_query_connection db + 1,
                   connections := connections db2\<rparr>"
      using a(1) by (simp add: db1_def)
    have h2: "map host (connections db2) = map host (connections db)"
      using a(3) by (simp add: db1_def)
    show ?thesis
    proof (cases found)
      case (Some p)
      then obtain ret i where p: "found = Some (ret, i)" by (cases p) auto
      with f obtain j' where
        g: "ret = 1 \<or> ret = - 1" "served ret (connections db2 ! i)" "j' < n"
           "i = (start + j') mod n"
           "slots_tried ev1 = map (\<lambda>x. (start + x) mod n) [0..<Suc j']"
        by auto
      have r: "driver_mysql_do_query E db q log = Some (Inr (ret, Some i, db2, log2))"
        using dq rw1 res1 p by (simp add: do_query_passes.simps [of E db1 q start 0])
      have sl: "slots_tried ev1 = take (Suc j') (ring_order n start @ ring_order n start)"
        using g(5) ring_order_take [OF g(3), of start] g(3)
        by (simp add: length_ring_order)
      have la: "last (slots_tried ev1) = i"
        using g(4,5) by simp
      have "i < n" using g(4) n0 by simp
      with g(1,2,3) sl la have "\<exists>i' k. Some i = Some i' \<and> i' < n \<and> served ret (connections db2 ! i')
                           \<and> 0 < k \<and> k \<le> 2 * n
                           \<and> slots_tried ev1 = take k (ring_order n start @ ring_order n start)
                           \<and> last (slots_tried ev1) = i'"
        by (intro exI [of _ i] exI [of _ "Suc j'"]) simp
      with g(1) b have "\<exists>ev. log2 = log @ ev \<and> filter is_callback ev = []
               \<and> (if ret = 0 then
                     Some i = None
                     \<and> slots_tried ev = ring_order n start @ ring_order n start
                   else
                     (ret = 1 \<or> ret = - 1)
                     \<and> (\<exists>i' k. Some i = Some i' \<and> i' < n \<and> served ret (connections db2 ! i')
                           \<and> 0 < k \<and> k \<le> 2 * n
                           \<and> slots_tried ev = take k (ring_order n start @ ring_order n start)
                           \<and> last (slots_tried ev) = i'))"
        by (intro exI [of _ ev1]) auto
      with r a2 a(2) h2 show ?thesis by simp
    next
      case None
      with f have sl1: "slots_tried ev1 = ring_order n start" by (simp add: ring_order_def)
      define db3 where "db3 = db2\<lparr>connections :=
                    map (\<lambda>c. c\<lparr>connect_delay := CONNECT_RESET_DELAY\<rparr>) (connections db2)\<rparr>"
      have len3: "length (connections db3) = n" using a(2) by (simp add: db3_def)
      have h3: "map host (connections db3) = map host (connections db)"
        using h2 by (simp add: db3_def comp_def)
      have a3: "db3 = db\<lparr>next_query_connection := next_query_connection db + 1,
                   connections := connections db3\<rparr>"
        using a2 by (simp add: db3_def) (metis mysql_db.update_convs(12) mysql_db.surjective)
      have dq2: "driver_mysql_do_query E db q log =
          (case ring_walk E db3 q start start log2 of
             None \<Rightarrow> None
           | Some (Inl f) \<Rightarrow> Some (Inl f)
           | Some (Inr (Some (ret, i), db', log')) \<Rightarrow> Some (Inr (ret, Some i, db', log'))
           | Some (Inr (None, db', log')) \<Rightarrow> Some (Inr (0, None, db', log')))"
      proof -
        have "driver_mysql_do_query E db q log = do_query_passes E db3 q start 1 log2"
          using dq rw1 res1 None
          by (simp add: do_query_passes.simps [of E db1 q start 0] db3_def)
        then show ?thesis
          by (simp add: do_query_passes.simps [of E db3 q start 1]
              split: option.splits sum.splits prod.splits)
      qed
      from ring_walk_pass [OF len3 st n0, of E q log2] s0
      obtain res2 where rw2: "ring_walk E db3 q start start log2 = Some res2"
        and ok2: "(case res2 of
        Inl f \<Rightarrow> ssl_unsupported E db3
      | Inr (found, db', log') \<Rightarrow>
          db' = db3\<lparr>connections := connections db'\<rparr>
          \<and> length (connections db') = n
          \<and> map host (connections db') = map host (connections db3)
          \<and> (\<exists>ev. log' = log2 @ ev \<and> filter is_callback ev = []
               \<and> (case found of
                     None \<Rightarrow> slots_tried ev = map (\<lambda>x. (start + x) mod n) [0..<n]
                   | Some (ret, i) \<Rightarrow>
                       (ret = 1 \<or> ret = - 1) \<and> served ret (connections db' ! i)
                       \<and> (\<exists>j'. 0 \<le> j' \<and> j' < n \<and> i = (start + j') mod n
                             \<and> slots_tried ev = map (\<lambda>x. (start + x) mod n) [0..<Suc j']))))"
        by auto
      show ?thesis
      proof (cases res2)
        case (Inl f)
        then have "ssl_unsupported E db"
          using ok2 a2 by (simp add: db3_def ssl_unsupported_def) (metis mysql_db.select_convs(7,8) mysql_db.surjective mysql_db.update_convs(12,13))
        with Inl show ?thesis using dq2 rw2 by simp
      next
        case (Inr z)
        then obtain found2 db4 log4 where res2: "res2 = Inr (found2, db4, log4)"
          by (cases z) auto
        from ok2 res2 obtain ev2 where
          a4: "db4 = db3\<lparr>connections := connections db4\<rparr>" "length (connections db4) = n"
             "map host (connections db4) = map host (connections db3)"
          and b4: "log4 = log2 @ ev2" "filter is_callback ev2 = []"
          and f4: "(case found2 of
                     None \<Rightarrow> slots_tried ev2 = map (\<lambda>x. (start + x) mod n) [0..<n]
                   | Some (ret, i) \<Rightarrow>
                       (ret = 1 \<or> ret = - 1) \<and> served ret (connections db4 ! i)
                       \<and> (\<exists>j'. 0 \<le> j' \<and> j' < n \<and> i = (start + j') mod n
                             \<and> slots_tried ev2 = map (\<lambda>x. (start + x) mod n) [0..<Suc j']))"
          by auto
        have a5: "db4 = db\<lparr>next_query_connection := next_query_connection db + 1,
                   connections := connections db4\<rparr>"
          using a4(1) a3 by (metis mysql_db.update_convs(12) mysql_db.surjective)
        have h5: "map host (connections db4) = map host (connections db)"
          using a4(3) h3 by simp
        have l5: "log4 = log @ (ev1 @ ev2)" "filter is_callback (ev1 @ ev2) = []"
          "slots_tried (ev1 @ ev2) = ring_order n start @ slots_tried ev2"
          using b b4 sl1 by (simp_all add: slots_tried_append)
        show ?thesis
        proof (cases found2)
          case None
          with f4 have "slots_tried ev2 = ring_order n start" by (simp add: ring_order_def)
          with l5 have "\<exists>ev. log4 = log @ ev \<and> filter is_callback ev = []
               \<and> slots_tried ev = ring_order n start @ ring_order n start"
            by (intro exI [of _ "ev1 @ ev2"]) simp
          moreover have "driver_mysql_do_query E db q log = Some (Inr (0, None, db4, log4))"
            using dq2 rw2 res2 None by simp
          ultimately show ?thesis using a5 a4(2) h5 by simp
        next
          case (Some p)
          then obtain ret i where p: "found2 = Some (ret, i)" by (cases p) auto
          with f4 obtain j' where
            g: "ret = 1 \<or> ret = - 1" "served ret (connections db4 ! i)" "j' < n"
               "i = (start + j') mod n"
               "slots_tried ev2 = map (\<lambda>x. (start + x) mod n) [0..<Suc j']"
            by auto
          have r: "driver_mysql_do_query E db q log = Some (Inr (ret, Some i, db4, log4))"
            using dq2 rw2 res2 p by simp
          have sl: "slots_tried (ev1 @ ev2)
              = take (n + Suc j') (ring_order n start @ ring_order n start)"
            using l5(3) g(5) ring_order_take [OF g(3), of start] g(3)
            by (simp add: length_ring_order)
          have la: "last (slots_tried (ev1 @ ev2)) = i"
            using l5(3) g(4,5) by simp
          have "i < n" using g(4) n0 by simp
          with g(1,2,3) sl la have "\<exists>i' k. Some i = Some i' \<and> i' < n
                           \<and> served ret (connections db4 ! i')
                           \<and> 0 < k \<and> k \<le> 2 * n
                           \<and> slots_tried (ev1 @ ev2) = take k (ring_order n start @ ring_order n start)
                           \<and> last (slots_tried (ev1 @ ev2)) = i'"
            by (intro exI [of _ i] exI [of _ "n + Suc j'"]) simp
          with g(1) l5(1,2) have "\<exists>ev. log4 = log @ ev \<and> filter is_callback ev = []
               \<and> (if ret = 0 then
                     Some i = None
                     \<and> slots_tried ev = ring_order n start @ ring_order n start
                   else
                     (ret = 1 \<or> ret = - 1)
                     \<and> (\<exists>i' k. Some i = Some i' \<and> i' < n \<and> served ret (connections db4 ! i')
                           \<and> 0 < k \<and> k \<le> 2 * n
                           \<and> slots_tried ev = take k (ring_order n start @ ring_order n start)
                           \<and> last (slots_tried ev) = i'))"
            by (intro exI [of _ "ev1 @ ev2"]) auto
          with r a5 a4(2) h5 show ?thesis by simp
        qed
      qed
    qed
  qed
qed

text \<open>Reading the callbacks off a log.\<close>

lemma callback_args_append: "callback_args (xs @ ys) = callback_args xs @ callback_args ys"
  by (induction xs rule: callback_args.induct) simp_all

lemma callback_args_none: "filter is_callback ev = [] \<Longrightarrow> callback_args ev = []"
  by (induction ev rule: callback_args.induct) (simp_all split: if_splits)

lemma all_same_replicate:
  assumes "\<forall>e \<in> set xs. e = x"
  shows "xs = replicate (length xs) x"
  using assms by (simp add: replicate_length_same)

text \<open>The back-off of connecting: the delay after \<open>n\<close> failures in a row.\<close>

lemma backoff_step:
  assumes "1 \<le> n"
  shows "(if min ((5::nat) ^ (n - 1)) 1800 * 5 > 1800 then 1800
          else min ((5::nat) ^ (n - 1)) 1800 * 5)
         = min ((5::nat) ^ n) 1800"
proof -
  obtain k where n: "n = Suc k" using assms by (cases n) auto
  show ?thesis
  proof (cases "(5::nat) ^ k \<ge> 1800")
    case True
    moreover from True have "(1800::nat) \<le> 5 * 5 ^ k" by simp
    ultimately show ?thesis by (simp add: n min_def)
  next
    case False
    then show ?thesis by (simp add: n min_def mult.commute)
  qed
qed

lemma backoff_wrapped:
  assumes "1 \<le> n" "(of_nat n :: uint) = 0"
  shows "min ((5::nat) ^ (n - 1)) 1800 = 1800" "min ((5::nat) ^ n) 1800 = 1800"
proof -
  have "2 ^ 32 dvd n" using assms(2) by (simp add: word_of_nat_eq_0_iff)
  then have "2 ^ 32 \<le> n" using assms(1) by (auto dest: dvd_imp_le)
  then have "5 \<le> n - 1" by simp
  then have "(5::nat) ^ 5 \<le> 5 ^ (n - 1)" by (intro power_increasing) simp_all
  then have a: "(1800::nat) \<le> 5 ^ (n - 1)" by simp
  have "(5::nat) ^ (n - 1) \<le> 5 ^ n" by (intro power_increasing) simp_all
  with a have b: "(1800::nat) \<le> 5 ^ n" by (rule order_trans)
  from a show "min ((5::nat) ^ (n - 1)) 1800 = 1800" by (simp add: min_def)
  from b show "min ((5::nat) ^ n) 1800 = 1800" by (simp add: min_def)
qed

lemma failed_delay_update:
  assumes "failed_times n c" "1 \<le> n" "connect_failure_count c \<noteq> 0"
  shows "unat (if connect_delay c * 5 > CONNECT_MAX_DELAY then CONNECT_MAX_DELAY
               else connect_delay c * 5) = min ((5::nat) ^ n) 1800"
proof -
  define d where "d = unat (connect_delay c)"
  have d: "d = min (5 ^ (n - 1)) 1800" using assms(1,2) by (simp add: failed_times_def d_def)
  then have "d \<le> 1800" by simp
  then have m: "unat (connect_delay c * 5) = d * 5"
    by (simp add: unat_word_ariths d_def)
  have c: "(connect_delay c * 5 > CONNECT_MAX_DELAY) = (d * 5 > 1800)"
    by (simp add: word_less_nat_alt m CONNECT_MAX_DELAY_def)
  show ?thesis
  proof (cases "d * 5 > 1800")
    case True
    with c have "connect_delay c * 5 > CONNECT_MAX_DELAY" by simp
    then have "unat (if connect_delay c * 5 > CONNECT_MAX_DELAY then CONNECT_MAX_DELAY
               else connect_delay c * 5) = 1800"
      by (simp add: CONNECT_MAX_DELAY_def)
    with backoff_step [OF assms(2)] True d show ?thesis by simp
  next
    case False
    with c have "\<not> connect_delay c * 5 > CONNECT_MAX_DELAY" by simp
    then have "unat (if connect_delay c * 5 > CONNECT_MAX_DELAY then CONNECT_MAX_DELAY
               else connect_delay c * 5) = d * 5"
      using m by simp
    with backoff_step [OF assms(2)] False d show ?thesis by simp
  qed
qed

lemma connect_failed_step:
  assumes inv: "failed_times n c"
    and con: "driver_mysql_connect E db c log = Inr (False, c1, log1)"
  shows "\<exists>ev. log1 = log @ ev \<and> failed_times (n + length (filter is_real_connect ev)) c1"
proof -
  have nc: "\<not> connected c" using inv by (simp add: failed_times_def)
  define now where "now = time_reply E (length log)"
  show ?thesis
  proof (cases "last_connect c + uint (connect_delay c) > now")
    case True
    then have "c1 = c" "log1 = log @ [Time_call]"
      using con nc by (simp_all add: driver_mysql_connect_def Let_def now_def)
    with inv show ?thesis by (intro exI [of _ "[Time_call]"]) simp
  next
    case False
    define want_ssl where
      "want_ssl = (\<not> ssl_set c \<and> (ssl_ca db \<noteq> None \<or> ssl_ca_path db \<noteq> None))"
    define c2 where "c2 = (if want_ssl then c\<lparr>last_connect := now, ssl_set := True\<rparr>
                           else c\<lparr>last_connect := now\<rparr>)"
    define ev where "ev = (if want_ssl then [Time_call, Ssl_set_call (host c)] else [Time_call])
                          @ [Real_connect_call (host c)]"
    define r where "r = mysql_real_connect_reply E (length log + length ev - 1) (host c)"
    define c3 where "c3 = c2\<lparr>mysql := set_reply r\<rparr>"
    have f3: "failed_times n c3"
      using inv by (simp add: failed_times_def c3_def c2_def)
    have res: "log1 = log @ ev \<and> c1 =
       (if connect_failure_count c3 > 0
        then c3\<lparr>connect_delay := (if connect_delay c3 * 5 > CONNECT_MAX_DELAY
                 then CONNECT_MAX_DELAY else connect_delay c3 * 5),
                 connect_failure_count := connect_failure_count c3 + 1\<rparr>
        else c3\<lparr>connect_failure_count := connect_failure_count c3 + 1\<rparr>)"
      using con nc False
      by (auto simp: driver_mysql_connect_def Let_def now_def want_ssl_def c2_def ev_def
          r_def c3_def split: if_splits reply.splits)
    have cnt: "length (filter is_real_connect ev) = 1" by (simp add: ev_def)
    have "failed_times (n + 1) c1"
    proof (cases "n = 0")
      case True
      with f3 have "connect_failure_count c3 = 0" "connect_delay c3 = 1" "\<not> connected c3"
        by (simp_all add: failed_times_def word_unat_eq_iff)
      with res True show ?thesis by (simp add: failed_times_def)
    next
      case n1: False
      then have n1': "1 \<le> n" by simp
      show ?thesis
      proof (cases "connect_failure_count c3 = 0")
        case True
        then have "(of_nat n :: uint) = 0" using f3 by (simp add: failed_times_def)
        from backoff_wrapped [OF n1' this] f3 True res n1 show ?thesis
          by (simp add: failed_times_def)
      next
        case False
        then have pos: "connect_failure_count c3 > 0" by (simp add: word_greater_zero_iff)
        from failed_delay_update [OF f3 n1' False] res pos f3 show ?thesis
          by (simp add: failed_times_def)
      qed
    qed
    with res cnt show ?thesis by (intro exI [of _ ev]) simp
  qed
qed

lemma connect_repeat_failed:
  assumes "failed_times n c"
    and "connect_repeat E db m c log = Inr (oks, c', log')"
    and "\<forall>ok \<in> set oks. \<not> ok"
  shows "\<exists>ev. log' = log @ ev \<and> failed_times (n + length (filter is_real_connect ev)) c'"
  using assms
proof (induction m arbitrary: n c log oks)
  case 0
  then show ?case by simp
next
  case (Suc m)
  from Suc.prems(2) obtain ok c1 log1 oks1 where
    con: "driver_mysql_connect E db c log = Inr (ok, c1, log1)"
    and rep: "connect_repeat E db m c1 log1 = Inr (oks1, c', log')"
    and oks: "oks = ok # oks1"
    by (auto split: sum.splits)
  from oks Suc.prems(3) have nok: "\<not> ok" and rest: "\<forall>ok \<in> set oks1. \<not> ok" by auto
  from con nok have con': "driver_mysql_connect E db c log = Inr (False, c1, log1)" by simp
  from connect_failed_step [OF Suc.prems(1) con']
  obtain ev1 where e1: "log1 = log @ ev1"
    and f1: "failed_times (n + length (filter is_real_connect ev1)) c1"
    by auto
  from Suc.IH [OF f1 rep rest]
  obtain ev2 where e2: "log' = log1 @ ev2"
    and f2: "failed_times (n + length (filter is_real_connect ev1)
                + length (filter is_real_connect ev2)) c'"
    by auto
  show ?case
    using e1 e2 f2 by (intro exI [of _ "ev1 @ ev2"]) (simp add: add.assoc)
qed

text \<open>Reading a result row by row.\<close>

lemma next_row_end:
  assumes "result r = Some res" "conn r = Some c" "mysql_errno (mysql c) = 0"
    "res_rows res = []"
  shows "driver_mysql_result_next_row r = Inr (0, r\<lparr>row := None\<rparr>)"
  using assms
  by (simp add: driver_mysql_result_next_row_def mysql_fetch_row_def)

lemma next_row_calls_end:
  assumes "result r = Some res" "conn r = Some c" "mysql_errno (mysql c) = 0"
    "res_rows res = []"
  shows "\<exists>r'. next_row_calls n r = Inr (replicate n 0, r')"
  using assms
proof (induction n arbitrary: r)
  case 0
  then show ?case by simp
next
  case (Suc n)
  from next_row_end [OF Suc.prems]
  have s: "driver_mysql_result_next_row r = Inr (0, r\<lparr>row := None\<rparr>)" .
  from Suc.IH [of "r\<lparr>row := None\<rparr>"] Suc.prems
  obtain r' where "next_row_calls n (r\<lparr>row := None\<rparr>) = Inr (replicate n 0, r')"
    by auto
  with s show ?case by simp
qed

lemma next_row_row:
  assumes "result r = Some res" "conn r = Some c" "res_rows res = Fetch_row x # rest"
  shows "driver_mysql_result_next_row r
         = Inr (1, r\<lparr>row := Some x, result := Some (res\<lparr>res_rows := rest\<rparr>)\<rparr>)"
  using assms
  by (simp add: driver_mysql_result_next_row_def mysql_fetch_row_def)

lemma next_row_fault:
  assumes "result r = Some res" "conn r = Some c" "res_rows res = Fetch_fault e msg # rest"
    "e \<noteq> 0"
  shows "\<exists>r'. driver_mysql_result_next_row r = Inr (- 1, r')"
  using assms
  by (simp add: driver_mysql_result_next_row_def mysql_fetch_row_def)

lemma next_row_calls_rows:
  assumes "result r = Some res" "conn r = Some c" "res_rows res = map Fetch_row rows @ rest"
  shows "\<exists>r'. next_row_calls (length rows) r = Inr (replicate (length rows) 1, r')
           \<and> result r' = Some (res\<lparr>res_rows := rest\<rparr>) \<and> conn r' = Some c"
  using assms
proof (induction rows arbitrary: r res)
  case Nil
  then show ?case by simp
next
  case (Cons x rows)
  define r1 where
    "r1 = r\<lparr>row := Some x, result := Some (res\<lparr>res_rows := map Fetch_row rows @ rest\<rparr>)\<rparr>"
  have s: "driver_mysql_result_next_row r = Inr (1, r1)"
    using next_row_row [OF Cons.prems(1,2), of x "map Fetch_row rows @ rest"] Cons.prems(3)
    by (simp add: r1_def)
  from Cons.IH [of r1 "res\<lparr>res_rows := map Fetch_row rows @ rest\<rparr>"] Cons.prems(2)
  obtain r' where "next_row_calls (length rows) r1 = Inr (replicate (length rows) 1, r')"
    "result r' = Some (res\<lparr>res_rows := rest\<rparr>)" "conn r' = Some c"
    by (auto simp: r1_def)
  with s show ?case by simp
qed

lemma next_row_calls_append:
  assumes "next_row_calls m r = Inr (xs, r1)" "next_row_calls n r1 = Inr (ys, r2)"
  shows "next_row_calls (m + n) r = Inr (xs @ ys, r2)"
  using assms
  by (induction m arbitrary: r xs) (auto split: sum.splits)

text \<open>
  The Rows result that \<^verbatim>\<open>driver_mysql_query\<close> hands to the callback has a result set and a
  connection whose handle reports no error.
\<close>

lemma rows_result_clean:
  assumes ne: "connections db \<noteq> []"
    and q: "driver_mysql_query E db q log = Some (Inr (db', log'))"
    and cb: "Callback_call (Mysql_result r) \<in> set (drop (length log) log')"
    and rows: "api r = driver_mysql_result"
  shows "\<exists>res c. result r = Some res \<and> conn r = Some c \<and> mysql_errno (mysql c) = 0"
proof -
  from do_query_result [OF ne, of E q log]
  obtain res where r: "driver_mysql_do_query E db q log = Some res"
    and ok: "(case res of
        Inl f \<Rightarrow> ssl_unsupported E db
      | Inr (ret, conn_r, db', log') \<Rightarrow>
          (\<exists>ev. log' = log @ ev \<and> filter is_callback ev = []
               \<and> (if ret = 0 then conn_r = None
                   else (ret = 1 \<or> ret = - 1)
                      \<and> (\<exists>i. conn_r = Some i \<and> served ret (connections db' ! i)))))"
    by (fastforce split: sum.splits)
  from q r obtain ret conn_r db1 log1 where res: "res = Inr (ret, conn_r, db1, log1)"
    by (cases res) (auto simp: driver_mysql_query_def)
  with ok obtain ev where e: "log1 = log @ ev" "filter is_callback ev = []"
    and c: "if ret = 0 then conn_r = None
            else (ret = 1 \<or> ret = - 1)
               \<and> (\<exists>i. conn_r = Some i \<and> served ret (connections db1 ! i))"
    by auto
  have nocb: "Callback_call (Mysql_result r) \<notin> set ev"
    using e(2) by (auto simp: filter_empty_conv)
  consider (nc) "ret = 0" | (err) "ret = - 1" | (ok1) "ret = 1"
    using c by (auto split: if_splits)
  then show ?thesis
  proof cases
    case nc
    with q r res e cb nocb show ?thesis by (auto simp: driver_mysql_query_def)
  next
    case err
    with q r res e cb nocb rows show ?thesis
      by (auto simp: driver_mysql_query_def zeroed_result_def driver_mysql_result_def
          driver_mysql_error_result_def)
  next
    case ok1
    with c obtain i where i: "conn_r = Some i" "served 1 (connections db1 ! i)" by auto
    then have z: "mysql_errno (mysql (connections db1 ! i)) = 0" by (simp add: served_def)
    show ?thesis
    proof (cases "mysql_store_result_reply E (length log1) (host (connections db1 ! i))")
      case (Stored rs)
      with q r res e cb nocb ok1 i z show ?thesis
        by (auto simp: driver_mysql_query_def zeroed_result_def Let_def)
    next
      case (Store_null e' msg)
      with q r res e cb nocb ok1 i rows show ?thesis
        by (auto simp: driver_mysql_query_def zeroed_result_def Let_def driver_mysql_result_def
          driver_mysql_error_result_def)
    qed
  qed
qed

text \<open>Reading the connect string token by token, and connecting to every host.\<close>

lemma parse_connect_args_Cons:
  "parse_connect_args E db (arg # args) log =
    (case token_step E db arg log of
       Inl f \<Rightarrow> Inl f
     | Inr (db1, log1) \<Rightarrow> parse_connect_args E db1 args log1)"
  by (simp add: token_step_def token_name_def token_value_def Let_def)

declare parse_connect_args.simps(2) [simp del]

lemma token_step_hosts:
  assumes "token_step E db arg log = Inr (db1, log1)"
  shows "map host (connections db1) = map host (connections db) @ declared_hosts [arg]"
  using assms
  by (auto simp: token_step_def declared_hosts_def is_host_token_def
      driver_mysql_connection_add_def split: if_splits)

lemma token_step_fatal:
  assumes "token_step E db arg log = Inl f"
  shows "\<exists>msg. f = Fatal msg"
  using assms
  by (auto simp: token_step_def driver_mysql_connection_add_def split: if_splits)

lemma token_step_valid:
  assumes "valid_token arg" "\<forall>k. mysql_init_reply E k"
  shows "\<exists>db1 log1. token_step E db arg log = Inr (db1, log1)"
  using assms
  by (auto simp: token_step_def valid_token_def known_keys_def driver_mysql_connection_add_def)

lemma token_step_ssl:
  assumes "token_step E db arg log = Inr (db1, log1)" "\<not> asks_ssl [arg]"
  shows "ssl_ca db1 = ssl_ca db \<and> ssl_ca_path db1 = ssl_ca_path db"
  using assms
  by (auto simp: token_step_def asks_ssl_def driver_mysql_connection_add_def split: if_splits)

lemma declared_hosts_Cons: "declared_hosts (t # ts) = declared_hosts [t] @ declared_hosts ts"
  by (simp add: declared_hosts_def)

lemma asks_ssl_Cons: "asks_ssl (t # ts) = (asks_ssl [t] \<or> asks_ssl ts)"
  by (simp add: asks_ssl_def)

lemma parse_hosts:
  assumes "parse_connect_args E db args log = Inr (db', log')"
  shows "map host (connections db') = map host (connections db) @ declared_hosts args"
  using assms
proof (induction args arbitrary: db log)
  case Nil
  then show ?case by (simp add: declared_hosts_def)
next
  case (Cons arg args)
  from Cons.prems obtain db1 log1 where
    s: "token_step E db arg log = Inr (db1, log1)"
    and r: "parse_connect_args E db1 args log1 = Inr (db', log')"
    by (auto simp: parse_connect_args_Cons split: sum.splits)
  from Cons.IH [OF r] token_step_hosts [OF s]
  show ?case by (simp add: declared_hosts_Cons [of arg args])
qed

lemma parse_fatal:
  assumes "parse_connect_args E db args log = Inl f"
  shows "\<exists>msg. f = Fatal msg"
  using assms
proof (induction args arbitrary: db log)
  case Nil
  then show ?case by simp
next
  case (Cons arg args)
  show ?case
  proof (cases "token_step E db arg log")
    case (Inl g)
    with Cons.prems have "f = g" by (simp add: parse_connect_args_Cons)
    with token_step_fatal [OF Inl] show ?thesis by simp
  next
    case (Inr x)
    then obtain db1 log1 where "token_step E db arg log = Inr (db1, log1)" by (cases x) auto
    with Cons.prems have "parse_connect_args E db1 args log1 = Inl f"
      by (simp add: parse_connect_args_Cons)
    then show ?thesis by (rule Cons.IH)
  qed
qed

lemma parse_valid:
  assumes "list_all valid_token args" "\<forall>k. mysql_init_reply E k"
  shows "\<exists>db' log'. parse_connect_args E db args log = Inr (db', log')"
  using assms
proof (induction args arbitrary: db log)
  case Nil
  then show ?case by simp
next
  case (Cons arg args)
  from Cons.prems have v: "valid_token arg" and vs: "list_all valid_token args" by simp_all
  from token_step_valid [OF v Cons.prems(2), of db log]
  obtain db1 log1 where s: "token_step E db arg log = Inr (db1, log1)" by auto
  from Cons.IH [OF vs Cons.prems(2), of db1 log1] s
  show ?case by (simp add: parse_connect_args_Cons)
qed

lemma parse_ssl:
  assumes "parse_connect_args E db args log = Inr (db', log')" "\<not> asks_ssl args"
  shows "ssl_ca db' = ssl_ca db \<and> ssl_ca_path db' = ssl_ca_path db"
  using assms
proof (induction args arbitrary: db log)
  case Nil
  then show ?case by simp
next
  case (Cons arg args)
  from Cons.prems(1) obtain db1 log1 where
    s: "token_step E db arg log = Inr (db1, log1)"
    and r: "parse_connect_args E db1 args log1 = Inr (db', log')"
    by (auto simp: parse_connect_args_Cons split: sum.splits)
  from Cons.prems(2) have a: "\<not> asks_ssl [arg]" "\<not> asks_ssl args"
    by (simp_all add: asks_ssl_Cons [of arg args])
  from Cons.IH [OF r a(2)] token_step_ssl [OF s a(1)]
  show ?case by simp
qed

lemma connect_all_loop_hosts:
  assumes "connect_all_loop E db cs log = Inr (cs', log')"
  shows "map host cs' = map host cs"
  using assms
proof (induction cs arbitrary: log cs')
  case Nil
  then show ?case by simp
next
  case (Cons c cs)
  from Cons.prems obtain ok c1 log1 cs1 where
    s: "driver_mysql_connect E db c log = Inr (ok, c1, log1)"
    and r: "connect_all_loop E db cs log1 = Inr (cs1, log')"
    and e: "cs' = c1 # cs1"
    by (auto split: sum.splits)
  from connect_Inr [OF s] Cons.IH [OF r] e show ?case by simp
qed

lemma connect_all_loop_total:
  assumes "\<not> ssl_unsupported E db"
  shows "\<exists>cs' log'. connect_all_loop E db cs log = Inr (cs', log')"
proof (induction cs arbitrary: log)
  case Nil
  then show ?case by simp
next
  case (Cons c cs)
  show ?case
  proof (cases "driver_mysql_connect E db c log")
    case (Inl f)
    from connect_Inl [OF this] assms show ?thesis by simp
  next
    case (Inr x)
    then obtain ok c1 log1 where s: "driver_mysql_connect E db c log = Inr (ok, c1, log1)"
      by (cases x) auto
    from Cons.IH [of log1] s show ?thesis by auto
  qed
qed

subsection \<open>The rate limit of connecting\<close>

text \<open>
  C5, as stated, fails on a connection that is connected: \<^verbatim>\<open>driver_mysql_connect\<close>
  returns \<^verbatim>\<open>TRUE\<close> at once, also at a time before \<open>last_connect + connect_delay\<close>.
\<close>

theorem connect_rate_limit_counterexample:
  "time_reply E_up 0
     < last_connect ((conn_new ''a'')\<lparr>connected := True, last_connect := 100\<rparr>)
       + uint (connect_delay ((conn_new ''a'')\<lparr>connected := True, last_connect := 100\<rparr>))
   \<and> driver_mysql_connect E_up new_mysql_db
        ((conn_new ''a'')\<lparr>connected := True, last_connect := 100\<rparr>) []
      = Inr (True, (conn_new ''a'')\<lparr>connected := True, last_connect := 100\<rparr>, [])"
  by (simp add: driver_mysql_connect_def E_up_def conn_new_def CONNECT_MIN_DELAY_def)

text \<open>
  C5 (amended): for a connection that is not connected, a call of connect at a time
  \<open>t < last_connect + connect_delay\<close> only reads the clock, returns failure and leaves the
  connection (so \<open>failure_count\<close>, \<open>connect_delay\<close> and \<open>last_connect\<close>) as it was. A call
  that passes the gate reaches the network and, whether it succeeds or fails, leaves
  \<open>last_connect\<close> at the time read; the only other way out is the fatal error of a build
  without SSL support.
\<close>

theorem connect_rate_limit:
  assumes "\<not> connected c"
  shows "(time_reply E (length log) < last_connect c + uint (connect_delay c) \<longrightarrow>
            driver_mysql_connect E db c log = Inr (False, c, log @ [Time_call]))
       \<and> (\<not> time_reply E (length log) < last_connect c + uint (connect_delay c) \<longrightarrow>
            (case driver_mysql_connect E db c log of
               Inl f \<Rightarrow> \<not> HAVE_MYSQL_SSL E
             | Inr (ok, c', log') \<Rightarrow>
                 last_connect c' = time_reply E (length log)
                 \<and> Real_connect_call (host c) \<in> set log'))"
  using assms
  by (auto simp: driver_mysql_connect_def Let_def split: reply.splits)

text \<open>
  Witness for C5: at time 100 a connection last tried at 100 is refused by the gate, and a
  new connection (last tried at 0) is tried.
\<close>

theorem connect_rate_limit_witness:
  "driver_mysql_connect E_up new_mysql_db ((conn_new ''a'')\<lparr>last_connect := 100\<rparr>) []
     = Inr (False, (conn_new ''a'')\<lparr>last_connect := 100\<rparr>, [Time_call])
   \<and> (case driver_mysql_connect E_up new_mysql_db (conn_new ''a'') [] of
         Inl f \<Rightarrow> \<not> HAVE_MYSQL_SSL E_up
       | Inr (ok, c', log') \<Rightarrow> last_connect c' = 100 \<and> Real_connect_call ''a'' \<in> set log')"
  using connect_rate_limit [of "(conn_new ''a'')\<lparr>last_connect := 100\<rparr>" E_up "[]" new_mysql_db]
    connect_rate_limit [of "conn_new ''a''" E_up "[]" new_mysql_db]
  by (simp add: driver_mysql_connect_def E_up_def conn_new_def CONNECT_MIN_DELAY_def
      set_reply_def new_mysql_db_def)

subsection \<open>The error result\<close>

text \<open>
  C6, as stated, fails in its second half: the table of the error result has no
  \<^verbatim>\<open>get_fields_count\<close> function (the slot is \<^verbatim>\<open>NULL\<close>), so \<open>field_count()\<close> on an error
  result does not return 0: it is a call through a null pointer.
\<close>

theorem error_result_counterexample:
  "get_fields_count driver_mysql_error_result = None
   \<and> sql_result_get_fields_count
        ((zeroed_result driver_mysql_error_result)\<lparr>conn := Some (conn_new ''a'')\<rparr>)
      = Inl Null_pointer"
  by (simp add: driver_mysql_error_result_def sql_result_get_fields_count_def zeroed_result_def)

text \<open>
  C6 (amended): for the error-result variant every call of \<open>next_row()\<close> returns Error
  (\<open>-1\<close>) and leaves the result as it is; the variant has no \<open>field_count\<close> operation (its
  slot is empty), while the \<open>fields_count\<close> attribute of the error result that
  \<^verbatim>\<open>driver_mysql_query\<close> builds is 0.
\<close>

theorem error_result_next_row:
  assumes "api r = driver_mysql_error_result"
  shows "next_row (api r) = Some Driver_mysql_result_error_next_row
       \<and> driver_mysql_result_error_next_row r = - 1
       \<and> sql_result_next_row r = Inr (- 1, r)
       \<and> get_fields_count (api r) = None
       \<and> fields_count ((zeroed_result driver_mysql_error_result)\<lparr>conn := cp\<rparr>) = 0"
  using assms
  by (simp add: driver_mysql_error_result_def sql_result_next_row_def
      driver_mysql_result_error_next_row_def zeroed_result_def)

text \<open>Witness for C6: the error result built for a connection.\<close>

theorem error_result_next_row_witness:
  "sql_result_next_row
     ((zeroed_result driver_mysql_error_result)\<lparr>conn := Some (conn_new ''a'')\<rparr>)
   = Inr (- 1, (zeroed_result driver_mysql_error_result)\<lparr>conn := Some (conn_new ''a'')\<rparr>)"
  using error_result_next_row
    [of "(zeroed_result driver_mysql_error_result)\<lparr>conn := Some (conn_new ''a'')\<rparr>"]
  by (simp add: zeroed_result_def)

subsection \<open>The dispatcher walks the ring at most twice\<close>

text \<open>
  C2: for a pool that is not empty, one dispatch call returns, and the slots it tried are
  an initial part of two passes over the ring from the round-robin start; so it never
  makes more than two full passes. When it returns total failure (\<open>0\<close>, no connection
  assigned) it tried exactly two full passes. And when the first full walk finds no
  connection, the outcome of the call is that of one more walk from the same start, made
  after every connection's \<open>connect_delay\<close> was set to \<^verbatim>\<open>CONNECT_RESET_DELAY\<close>, with total
  failure if that walk finds none either. (The only way a call does not return a result
  is the fatal error of a build without SSL support.)
\<close>

theorem dispatch_two_passes:
  assumes "connections db \<noteq> []"
  defines "n \<equiv> length (connections db)"
  defines "start \<equiv> unat (next_query_connection db) mod n"
  defines "db1 \<equiv> db\<lparr>next_query_connection := next_query_connection db + 1\<rparr>"
  shows "(\<exists>res. driver_mysql_do_query E db q log = Some res \<and>
           (case res of
              Inl f \<Rightarrow> ssl_unsupported E db
            | Inr (ret, conn_r, db', log') \<Rightarrow>
                (\<exists>ev k. log' = log @ ev \<and> k \<le> 2 * n
                   \<and> slots_tried ev = take k (ring_order n start @ ring_order n start)
                   \<and> (ret = 0 \<longrightarrow> conn_r = None \<and> k = 2 * n))))
       \<and> (\<forall>db2 log2.
             ring_walk E db1 q start start log = Some (Inr (None, db2, log2)) \<longrightarrow>
             driver_mysql_do_query E db q log =
               (case ring_walk E
                       (db2\<lparr>connections :=
                              map (\<lambda>c. c\<lparr>connect_delay := CONNECT_RESET_DELAY\<rparr>)
                                (connections db2)\<rparr>)
                       q start start log2 of
                  None \<Rightarrow> None
                | Some (Inl f) \<Rightarrow> Some (Inl f)
                | Some (Inr (None, db', log')) \<Rightarrow> Some (Inr (0, None, db', log'))
                | Some (Inr (Some (ret, i), db', log')) \<Rightarrow> Some (Inr (ret, Some i, db', log'))))"
proof (intro conjI allI impI)
  from do_query_result [OF assms(1), of E q log]
  obtain res where r: "driver_mysql_do_query E db q log = Some res"
    and ok: "(case res of
        Inl f \<Rightarrow> ssl_unsupported E db
      | Inr (ret, conn_r, db', log') \<Rightarrow>
          db' = db\<lparr>next_query_connection := next_query_connection db + 1,
                   connections := connections db'\<rparr>
          \<and> length (connections db') = n
          \<and> map host (connections db') = map host (connections db)
          \<and> (\<exists>ev. log' = log @ ev \<and> filter is_callback ev = []
               \<and> (if ret = 0 then
                     conn_r = None
                     \<and> slots_tried ev = ring_order n start @ ring_order n start
                   else
                     (ret = 1 \<or> ret = - 1)
                     \<and> (\<exists>i k. conn_r = Some i \<and> i < n \<and> served ret (connections db' ! i)
                           \<and> 0 < k \<and> k \<le> 2 * n
                           \<and> slots_tried ev = take k (ring_order n start @ ring_order n start)
                           \<and> last (slots_tried ev) = i))))"
    unfolding n_def start_def by blast
  show "\<exists>res. driver_mysql_do_query E db q log = Some res \<and>
           (case res of
              Inl f \<Rightarrow> ssl_unsupported E db
            | Inr (ret, conn_r, db', log') \<Rightarrow>
                (\<exists>ev k. log' = log @ ev \<and> k \<le> 2 * n
                   \<and> slots_tried ev = take k (ring_order n start @ ring_order n start)
                   \<and> (ret = 0 \<longrightarrow> conn_r = None \<and> k = 2 * n)))"
  proof (cases res)
    case (Inl f)
    with r ok show ?thesis by simp
  next
    case (Inr y)
    then obtain ret conn_r db' log' where res: "res = Inr (ret, conn_r, db', log')"
      by (cases y) auto
    from ok res obtain ev where
      e: "log' = log @ ev"
      and c: "(if ret = 0 then
                     conn_r = None
                     \<and> slots_tried ev = ring_order n start @ ring_order n start
                   else
                     (ret = 1 \<or> ret = - 1)
                     \<and> (\<exists>i k. conn_r = Some i \<and> i < n \<and> served ret (connections db' ! i)
                           \<and> 0 < k \<and> k \<le> 2 * n
                           \<and> slots_tried ev = take k (ring_order n start @ ring_order n start)
                           \<and> last (slots_tried ev) = i))"
      by auto
    have "\<exists>k. k \<le> 2 * n
                   \<and> slots_tried ev = take k (ring_order n start @ ring_order n start)
                   \<and> (ret = 0 \<longrightarrow> conn_r = None \<and> k = 2 * n)"
    proof (cases "ret = 0")
      case True
      with c show ?thesis
        by (intro exI [of _ "2 * n"]) (simp add: length_ring_order)
    next
      case False
      with c show ?thesis by auto
    qed
    with e r res show ?thesis by auto
  qed
next
  fix db2 log2
  assume rw: "ring_walk E db1 q start start log = Some (Inr (None, db2, log2))"
  define db3 where "db3 = db2\<lparr>connections :=
       map (\<lambda>c. c\<lparr>connect_delay := CONNECT_RESET_DELAY\<rparr>) (connections db2)\<rparr>"
  have n0: "n \<noteq> 0" using assms(1) by (simp add: n_def)
  have "driver_mysql_do_query E db q log = do_query_passes E db1 q start 0 log"
    using n0 by (simp add: driver_mysql_do_query_def Let_def n_def start_def db1_def)
  also have "\<dots> = do_query_passes E db3 q start 1 log2"
    using rw by (simp add: do_query_passes.simps [of E db1 q start 0] db3_def)
  also have "\<dots> = (case ring_walk E db3 q start start log2 of
                  None \<Rightarrow> None
                | Some (Inl f) \<Rightarrow> Some (Inl f)
                | Some (Inr (None, db', log')) \<Rightarrow> Some (Inr (0, None, db', log'))
                | Some (Inr (Some (ret, i), db', log')) \<Rightarrow> Some (Inr (ret, Some i, db', log')))"
    by (simp add: do_query_passes.simps [of E db3 q start 1]
        split: option.splits sum.splits prod.splits)
  finally show "driver_mysql_do_query E db q log =
               (case ring_walk E
                       (db2\<lparr>connections :=
                              map (\<lambda>c. c\<lparr>connect_delay := CONNECT_RESET_DELAY\<rparr>)
                                (connections db2)\<rparr>)
                       q start start log2 of
                  None \<Rightarrow> None
                | Some (Inl f) \<Rightarrow> Some (Inl f)
                | Some (Inr (None, db', log')) \<Rightarrow> Some (Inr (0, None, db', log'))
                | Some (Inr (Some (ret, i), db', log')) \<Rightarrow> Some (Inr (ret, Some i, db', log')))"
    by (simp add: db3_def)
qed

text \<open>
  Witness for C2: two servers, both down. The first walk fails on both, the delays are
  reset, the second walk fails on both, and the call returns 0.
\<close>

theorem dispatch_two_passes_witness:
  "connections (db_of [''a'', ''b'']) \<noteq> []
   \<and> ring_walk E_down ((db_of [''a'', ''b''])\<lparr>next_query_connection := 1\<rparr>) ''q'' 0 0 []
       = Some (Inr (None,
           new_mysql_db\<lparr>connections :=
              [(conn_new ''a'')\<lparr>mysql := \<lparr>mysql_errno = 2003, mysql_error = ''down''\<rparr>,
                 connect_failure_count := 1, last_connect := 200\<rparr>,
               (conn_new ''b'')\<lparr>mysql := \<lparr>mysql_errno = 2003, mysql_error = ''down''\<rparr>,
                 connect_failure_count := 1, last_connect := 500\<rparr>],
              next_query_connection := 1\<rparr>,
           [Slot_tried 0, Time_call, Real_connect_call ''a'',
            Slot_tried 1, Time_call, Real_connect_call ''b'']))
   \<and> driver_mysql_do_query E_down (db_of [''a'', ''b'']) ''q'' []
       = Some (Inr (0, None,
           new_mysql_db\<lparr>connections :=
              [(conn_new ''a'')\<lparr>mysql := \<lparr>mysql_errno = 2003, mysql_error = ''down''\<rparr>,
                 connect_delay := 75, connect_failure_count := 2, last_connect := 800\<rparr>,
               (conn_new ''b'')\<lparr>mysql := \<lparr>mysql_errno = 2003, mysql_error = ''down''\<rparr>,
                 connect_delay := 75, connect_failure_count := 2, last_connect := 1100\<rparr>],
              next_query_connection := 1\<rparr>,
           [Slot_tried 0, Time_call, Real_connect_call ''a'',
            Slot_tried 1, Time_call, Real_connect_call ''b'',
            Slot_tried 0, Time_call, Real_connect_call ''a'',
            Slot_tried 1, Time_call, Real_connect_call ''b'']))
   \<and> slots_tried [Slot_tried 0, Time_call, Real_connect_call ''a'',
            Slot_tried 1, Time_call, Real_connect_call ''b'',
            Slot_tried 0, Time_call, Real_connect_call ''a'',
            Slot_tried 1, Time_call, Real_connect_call ''b'']
       = ring_order 2 0 @ ring_order 2 0"
proof -
  have ro: "ring_order 2 0 = [0, 1]" by code_simp
  show ?thesis
  using dispatch_two_passes [of "db_of [''a'', ''b'']" E_down "''q''" "[]"] ro
  by (simp add: driver_mysql_do_query_def db_of_def new_mysql_db_def conn_new_def E_down_def
      do_query_passes.simps ring_walk.simps driver_mysql_connection_do_query_def
      connection_do_query_loop.simps driver_mysql_connect_def set_reply_def Let_def
      CONNECT_MIN_DELAY_def CONNECT_MAX_DELAY_def CONNECT_RESET_DELAY_def)
qed

subsection \<open>A query without a result set\<close>

text \<open>
  C10: when the dispatch of a query succeeds (it returns \<open>1\<close>) and
  \<^verbatim>\<open>mysql_store_result\<close> then returns \<^verbatim>\<open>NULL\<close>, the callback is called with the error-result
  variant, whose \<open>next_row()\<close> reports Error, and not with a Rows result.
\<close>

theorem store_null_gives_error_result:
  assumes ne: "connections db \<noteq> []"
    and dq: "driver_mysql_do_query E db q log = Some (Inr (1, conn_r, db1, log1))"
    and st: "mysql_store_result_reply E (length log1) (host (connections db1 ! the conn_r))
               = Store_null e msg"
  shows "\<exists>db2 r. driver_mysql_query E db q log
           = Some (Inr (db2, log1 @ [Store_result_call (host (connections db1 ! the conn_r)),
                                     Callback_call (Mysql_result r)]))
         \<and> api r = driver_mysql_error_result
         \<and> sql_result_next_row r = Inr (- 1, r)"
proof -
  from do_query_result [OF ne, of E q log] dq
  obtain i where i: "conn_r = Some i" by auto
  define c where "c = connections db1 ! i"
  define db2 where "db2 = db1\<lparr>connections := (connections db1)
         [i := c\<lparr>mysql := \<lparr>mysql_errno = e, mysql_error = msg\<rparr>\<rparr>]\<rparr>"
  define r where "r = (zeroed_result driver_mysql_error_result)
         \<lparr>conn := map_option (\<lambda>i. connections db2 ! i) conn_r\<rparr>"
  have "driver_mysql_query E db q log
           = Some (Inr (db2, log1 @ [Store_result_call (host c), Callback_call (Mysql_result r)]))"
    using dq st i by (simp add: driver_mysql_query_def Let_def c_def db2_def r_def)
  moreover have "api r = driver_mysql_error_result"
    by (simp add: r_def zeroed_result_def)
  moreover have "sql_result_next_row r = Inr (- 1, r)"
    by (simp add: r_def zeroed_result_def sql_result_next_row_def driver_mysql_error_result_def
        driver_mysql_result_error_next_row_def)
  ultimately show ?thesis using i by (auto simp: c_def)
qed

text \<open>
  Witness for C10: one connected server that accepts the statement and stores no result
  set.
\<close>

theorem store_null_gives_error_result_witness:
  "connections (db_up [''a'']) \<noteq> []
   \<and> driver_mysql_do_query E_no_result (db_up [''a'']) ''insert'' []
       = Some (Inr (1, Some 0, (db_up [''a''])\<lparr>next_query_connection := 1\<rparr>,
                    [Slot_tried 0, Query_call ''a'' ''insert'']))
   \<and> mysql_store_result_reply E_no_result 2 ''a'' = Store_null 0 []
   \<and> driver_mysql_query E_no_result (db_up [''a'']) ''insert'' []
       = Some (Inr ((db_up [''a''])\<lparr>next_query_connection := 1\<rparr>,
                    [Slot_tried 0, Query_call ''a'' ''insert'', Store_result_call ''a'',
                     Callback_call (Mysql_result
                       ((zeroed_result driver_mysql_error_result)
                          \<lparr>conn := Some (conn_up ''a'' 50)\<rparr>))]))"
  using store_null_gives_error_result [of "db_up [''a'']" E_no_result "''insert''" "[]" "Some 0"
      "(db_up [''a''])\<lparr>next_query_connection := 1\<rparr>" "[Slot_tried 0, Query_call ''a'' ''insert'']" 0 "[]"]
  by (simp add: driver_mysql_query_def driver_mysql_do_query_def db_up_def conn_up_def
      new_mysql_db_def conn_new_def E_no_result_def E_up_def
      do_query_passes.simps ring_walk.simps driver_mysql_connection_do_query_def
      connection_do_query_loop.simps driver_mysql_connect_def set_reply_def Let_def
      CONNECT_MIN_DELAY_def zeroed_result_def)

subsection \<open>A query calls back once\<close>

text \<open>
  C4, as stated, fails in its last part: the dispatch of a statement can succeed (it
  returns \<open>1\<close>, the server accepted the query and reports no error) and yet the callback
  is given the error-result variant, because no result set was stored.
\<close>

theorem query_calls_back_once_counterexample:
  "driver_mysql_do_query E_no_result (db_up [''a'', ''b'']) ''update'' []
       = Some (Inr (1, Some 0, (db_up [''a'', ''b''])\<lparr>next_query_connection := 1\<rparr>,
                    [Slot_tried 0, Query_call ''a'' ''update'']))
   \<and> driver_mysql_query E_no_result (db_up [''a'', ''b'']) ''update'' []
       = Some (Inr ((db_up [''a'', ''b''])\<lparr>next_query_connection := 1\<rparr>,
                    [Slot_tried 0, Query_call ''a'' ''update'', Store_result_call ''a'',
                     Callback_call (Mysql_result
                       ((zeroed_result driver_mysql_error_result)
                          \<lparr>conn := Some (conn_up ''a'' 50)\<rparr>))]))
   \<and> mysql_errno (mysql (conn_up ''a'' 50)) = 0"
  by (simp add: driver_mysql_query_def driver_mysql_do_query_def db_up_def conn_up_def
      new_mysql_db_def conn_new_def E_no_result_def E_up_def
      do_query_passes.simps ring_walk.simps driver_mysql_connection_do_query_def
      connection_do_query_loop.simps driver_mysql_connect_def set_reply_def Let_def
      CONNECT_MIN_DELAY_def zeroed_result_def)

text \<open>
  C4 (amended): every call of query on a pool that is not empty returns, and among the
  events of the call the callback is called exactly once, before query returns. It is
  given the not-connected result when the dispatch returns \<open>0\<close>, the error-result variant
  when the dispatch returns \<open>-1\<close>, and when the dispatch returns \<open>1\<close> a Rows result over
  the stored result set, or the error-result variant if no result set was stored. (The
  only way query does not return is the fatal error of a build without SSL support.)
\<close>

theorem query_calls_back_once:
  assumes ne: "connections db \<noteq> []"
  shows "\<exists>res. driver_mysql_query E db q log = Some res \<and>
     (case res of
        Inl f \<Rightarrow> ssl_unsupported E db
      | Inr (db', log') \<Rightarrow>
          (\<exists>ret conn_r db1 log1 ev arg.
             driver_mysql_do_query E db q log = Some (Inr (ret, conn_r, db1, log1))
             \<and> log' = log @ ev
             \<and> callback_args ev = [arg]
             \<and> (ret = 0 \<or> ret = 1 \<or> ret = - 1)
             \<and> (ret = 0 \<longrightarrow> arg = Sql_not_connected_result)
             \<and> (ret = - 1 \<longrightarrow>
                  (\<exists>r. arg = Mysql_result r \<and> api r = driver_mysql_error_result))
             \<and> (ret = 1 \<longrightarrow>
                  (case mysql_store_result_reply E (length log1)
                          (host (connections db1 ! the conn_r)) of
                     Stored res \<Rightarrow>
                       (\<exists>r. arg = Mysql_result r \<and> api r = driver_mysql_result
                            \<and> result r = Some res)
                   | Store_null e msg \<Rightarrow>
                       (\<exists>r. arg = Mysql_result r \<and> api r = driver_mysql_error_result)))))"
proof -
  from do_query_result [OF ne, of E q log]
  obtain res where r: "driver_mysql_do_query E db q log = Some res"
    and ok: "(case res of
        Inl f \<Rightarrow> ssl_unsupported E db
      | Inr (ret, conn_r, db', log') \<Rightarrow>
          (\<exists>ev. log' = log @ ev \<and> filter is_callback ev = []
               \<and> (if ret = 0 then conn_r = None
                   else (ret = 1 \<or> ret = - 1) \<and> (\<exists>i. conn_r = Some i))))"
    by (fastforce split: sum.splits)
  show ?thesis
  proof (cases res)
    case (Inl f)
    with r ok show ?thesis by (simp add: driver_mysql_query_def)
  next
    case (Inr y)
    then obtain ret conn_r db1 log1 where res: "res = Inr (ret, conn_r, db1, log1)"
      by (cases y) auto
    with ok obtain ev where e: "log1 = log @ ev" "callback_args ev = []"
      and c: "if ret = 0 then conn_r = None
                   else (ret = 1 \<or> ret = - 1) \<and> (\<exists>i. conn_r = Some i)"
      using callback_args_none by auto
    consider (nc) "ret = 0" | (err) "ret = - 1" | (ok1) "ret = 1"
      using c by (auto split: if_splits)
    then show ?thesis
    proof cases
      case nc
      have "driver_mysql_query E db q log
          = Some (Inr (db1, log @ (ev @ [Callback_call Sql_not_connected_result])))"
        using r res nc e by (simp add: driver_mysql_query_def)
      moreover have "callback_args (ev @ [Callback_call Sql_not_connected_result])
          = [Sql_not_connected_result]"
        using e(2) by (simp add: callback_args_append)
      ultimately show ?thesis using r res nc by auto
    next
      case err
      define a where "a = Mysql_result ((zeroed_result driver_mysql_error_result)
                         \<lparr>conn := map_option (\<lambda>i. connections db1 ! i) conn_r\<rparr>)"
      have "driver_mysql_query E db q log = Some (Inr (db1, log @ (ev @ [Callback_call a])))"
        using r res err e by (simp add: driver_mysql_query_def a_def)
      moreover have "callback_args (ev @ [Callback_call a]) = [a]"
        using e(2) by (simp add: callback_args_append)
      moreover have "\<exists>r. a = Mysql_result r \<and> api r = driver_mysql_error_result"
        by (simp add: a_def zeroed_result_def)
      ultimately show ?thesis using r res err by auto
    next
      case ok1
      with c obtain i where i: "conn_r = Some i" by auto
      define h where "h = host (connections db1 ! i)"
      show ?thesis
      proof (cases "mysql_store_result_reply E (length log1) h")
        case (Stored rs)
        define a where "a = Mysql_result ((zeroed_result driver_mysql_result)
                               \<lparr>conn := Some (connections db1 ! i), result := Some rs\<rparr>)"
        have "driver_mysql_query E db q log
           = Some (Inr (db1, log @ (ev @ [Store_result_call h, Callback_call a, Free_result_call])))"
          using r res ok1 e i Stored by (simp add: driver_mysql_query_def a_def h_def Let_def)
        moreover have "callback_args (ev @ [Store_result_call h, Callback_call a, Free_result_call])
             = [a]"
          using e(2) by (simp add: callback_args_append)
        moreover have "\<exists>r. a = Mysql_result r \<and> api r = driver_mysql_result
                            \<and> result r = Some rs"
          by (simp add: a_def zeroed_result_def)
        ultimately show ?thesis using r res ok1 i Stored by (auto simp: h_def)
      next
        case (Store_null e' msg)
        define db2 where "db2 = db1\<lparr>connections := (connections db1)
           [i := (connections db1 ! i)\<lparr>mysql := \<lparr>mysql_errno = e', mysql_error = msg\<rparr>\<rparr>]\<rparr>"
        define a where "a = Mysql_result ((zeroed_result driver_mysql_error_result)
                         \<lparr>conn := map_option (\<lambda>i. connections db2 ! i) conn_r\<rparr>)"
        have "driver_mysql_query E db q log
           = Some (Inr (db2, log @ (ev @ [Store_result_call h, Callback_call a])))"
          using r res ok1 e i Store_null
          by (simp add: driver_mysql_query_def a_def h_def db2_def Let_def)
        moreover have "callback_args (ev @ [Store_result_call h, Callback_call a]) = [a]"
          using e(2) by (simp add: callback_args_append)
        moreover have "\<exists>r. a = Mysql_result r \<and> api r = driver_mysql_error_result"
          by (simp add: a_def zeroed_result_def)
        ultimately show ?thesis using r res ok1 i Store_null by (auto simp: h_def)
      qed
    qed
  qed
qed

text \<open>Witness for C4: two connected servers; the query goes to the first and yields rows.\<close>

theorem query_calls_back_once_witness:
  "connections (db_up [''a'', ''b'']) \<noteq> []
   \<and> driver_mysql_query E_up (db_up [''a'', ''b'']) ''select'' []
       = Some (Inr ((db_up [''a'', ''b''])\<lparr>next_query_connection := 1\<rparr>,
                    [Slot_tried 0, Query_call ''a'' ''select'', Store_result_call ''a'',
                     Callback_call (Mysql_result
                       ((zeroed_result driver_mysql_result)
                          \<lparr>conn := Some (conn_up ''a'' 50),
                           result := Some \<lparr>res_rows = [], res_fields = []\<rparr>\<rparr>)),
                     Free_result_call]))
   \<and> callback_args [Slot_tried 0, Query_call ''a'' ''select'', Store_result_call ''a'',
                     Callback_call (Mysql_result
                       ((zeroed_result driver_mysql_result)
                          \<lparr>conn := Some (conn_up ''a'' 50),
                           result := Some \<lparr>res_rows = [], res_fields = []\<rparr>\<rparr>)),
                     Free_result_call]
       = [Mysql_result
                       ((zeroed_result driver_mysql_result)
                          \<lparr>conn := Some (conn_up ''a'' 50),
                           result := Some \<lparr>res_rows = [], res_fields = []\<rparr>\<rparr>)]"
  using query_calls_back_once [of "db_up [''a'', ''b'']" E_up "''select''" "[]"]
  by (simp add: driver_mysql_query_def driver_mysql_do_query_def db_up_def conn_up_def
      new_mysql_db_def conn_new_def E_up_def
      do_query_passes.simps ring_walk.simps driver_mysql_connection_do_query_def
      connection_do_query_loop.simps driver_mysql_connect_def set_reply_def Let_def
      CONNECT_MIN_DELAY_def zeroed_result_def)

subsection \<open>The retry after a lost connection\<close>

text \<open>
  C3, as stated, fails in its first half: when the query loses the connection, the
  retry starts with \<^verbatim>\<open>driver_mysql_connect\<close>, which the rate limit can refuse. Here the
  connection was made at time 100 and is lost at time 100: the connection is marked
  disconnected, nothing is sent again, and the call returns \<open>0\<close>.
\<close>

theorem query_retry_once_counterexample:
  "connected (conn_up ''a'' 100)
   \<and> mysql_query_reply E_lost 0 ''a'' ''q'' = Failed CR_SERVER_LOST ''lost''
   \<and> driver_mysql_connection_do_query E_lost new_mysql_db (conn_up ''a'' 100) ''q'' []
       = Inr (0, (conn_up ''a'' 100)\<lparr>mysql := \<lparr>mysql_errno = CR_SERVER_LOST, mysql_error = ''lost''\<rparr>,
                                      connected := False\<rparr>,
              [Query_call ''a'' ''q'', Time_call])"
  by (simp add: driver_mysql_connection_do_query_def connection_do_query_loop.simps
      driver_mysql_connect_def E_lost_def E_up_def conn_up_def conn_new_def set_reply_def
      CONNECT_MIN_DELAY_def CR_SERVER_LOST_def CR_SERVER_GONE_ERROR_def Let_def)

text \<open>
  C3 (amended): one call sends the query at most twice, always to the same connection.
  When the connection is up and the server answers the query with a connection-lost error
  (\<^verbatim>\<open>CR_SERVER_GONE_ERROR\<close>, \<^verbatim>\<open>CR_SERVER_LOST\<close>), the connection is marked disconnected and
  one reconnect is tried at once on the same slot, under the rate limit of connect: if it
  is refused or fails the call returns \<open>0\<close> without sending the query again; if it
  succeeds the query is sent once more, and a second loss gives \<open>0\<close> with the connection
  marked disconnected. When the server answers with any other error, the call returns
  \<open>-1\<close> at once, nothing is sent again, and the error result of the connection reports
  the server's error text.
\<close>

theorem query_retry_once:
  "(\<forall>ret c' log'.
      driver_mysql_connection_do_query E db c q log = Inr (ret, c', log') \<longrightarrow>
      (\<exists>ev. log' = log @ ev \<and> length (filter is_query ev) \<le> 2
         \<and> filter is_query ev = replicate (length (filter is_query ev)) (Query_call (host c) q)))
   \<and> (\<forall>c0 log0 e msg.
        driver_mysql_connect E db c log = Inr (True, c0, log0)
        \<and> mysql_query_reply E (length log0) (host c0) q = Failed e msg \<longrightarrow>
        (if e = CR_SERVER_GONE_ERROR \<or> e = CR_SERVER_LOST then
           driver_mysql_connection_do_query E db c q log =
             (case driver_mysql_connect E db
                     (c0\<lparr>mysql := \<lparr>mysql_errno = e, mysql_error = msg\<rparr>, connected := False\<rparr>)
                     (log0 @ [Query_call (host c) q]) of
                Inl f \<Rightarrow> Inl f
              | Inr (ok, c2, log2) \<Rightarrow>
                  if \<not> ok then Inr (0, c2, log2)
                  else
                    (case mysql_query_reply E (length log2) (host c) q of
                       Ok \<Rightarrow>
                         Inr (1, c2\<lparr>mysql := \<lparr>mysql_errno = 0, mysql_error = []\<rparr>\<rparr>,
                              log2 @ [Query_call (host c) q])
                     | Failed e' msg' \<Rightarrow>
                         if e' = CR_SERVER_GONE_ERROR \<or> e' = CR_SERVER_LOST then
                           Inr (0, c2\<lparr>mysql := \<lparr>mysql_errno = e', mysql_error = msg'\<rparr>,
                                      connected := False\<rparr>,
                                log2 @ [Query_call (host c) q])
                         else
                           Inr (- 1, c2\<lparr>mysql := \<lparr>mysql_errno = e', mysql_error = msg'\<rparr>\<rparr>,
                                log2 @ [Query_call (host c) q])))
         else
           driver_mysql_connection_do_query E db c q log =
             Inr (- 1, c0\<lparr>mysql := \<lparr>mysql_errno = e, mysql_error = msg\<rparr>\<rparr>,
                  log0 @ [Query_call (host c) q])
           \<and> driver_mysql_result_get_error
                ((zeroed_result driver_mysql_error_result)
                   \<lparr>conn := Some (c0\<lparr>mysql := \<lparr>mysql_errno = e, mysql_error = msg\<rparr>\<rparr>)\<rparr>)
              = Inr msg))"
proof (intro conjI allI impI)
  fix ret c' log'
  assume a: "driver_mysql_connection_do_query E db c q log = Inr (ret, c', log')"
  from cdq_Inr [OF a [unfolded driver_mysql_connection_do_query_def]]
  obtain ev where l: "log' = log @ ev"
    and s: "set ev \<subseteq> {Time_call, Ssl_set_call (host c), Real_connect_call (host c),
                      Query_call (host c) q}"
    and n: "int (length (filter is_query ev)) \<le> max 0 (2 - 0)"
    by auto
  have "\<forall>e \<in> set (filter is_query ev). e = Query_call (host c) q"
    using s by auto
  from all_same_replicate [OF this] l n
  show "\<exists>ev. log' = log @ ev \<and> length (filter is_query ev) \<le> 2
         \<and> filter is_query ev = replicate (length (filter is_query ev)) (Query_call (host c) q)"
    by (intro exI [of _ ev]) simp
next
  fix c0 log0 e msg
  assume a: "driver_mysql_connect E db c log = Inr (True, c0, log0)
        \<and> mysql_query_reply E (length log0) (host c0) q = Failed e msg"
  then have con: "driver_mysql_connect E db c log = Inr (True, c0, log0)"
    and rep: "mysql_query_reply E (length log0) (host c0) q = Failed e msg"
    by simp_all
  have h0: "host c0 = host c" using connect_Inr [OF con] by simp
  show "(if e = CR_SERVER_GONE_ERROR \<or> e = CR_SERVER_LOST then
           driver_mysql_connection_do_query E db c q log =
             (case driver_mysql_connect E db
                     (c0\<lparr>mysql := \<lparr>mysql_errno = e, mysql_error = msg\<rparr>, connected := False\<rparr>)
                     (log0 @ [Query_call (host c) q]) of
                Inl f \<Rightarrow> Inl f
              | Inr (ok, c2, log2) \<Rightarrow>
                  if \<not> ok then Inr (0, c2, log2)
                  else
                    (case mysql_query_reply E (length log2) (host c) q of
                       Ok \<Rightarrow>
                         Inr (1, c2\<lparr>mysql := \<lparr>mysql_errno = 0, mysql_error = []\<rparr>\<rparr>,
                              log2 @ [Query_call (host c) q])
                     | Failed e' msg' \<Rightarrow>
                         if e' = CR_SERVER_GONE_ERROR \<or> e' = CR_SERVER_LOST then
                           Inr (0, c2\<lparr>mysql := \<lparr>mysql_errno = e', mysql_error = msg'\<rparr>,
                                      connected := False\<rparr>,
                                log2 @ [Query_call (host c) q])
                         else
                           Inr (- 1, c2\<lparr>mysql := \<lparr>mysql_errno = e', mysql_error = msg'\<rparr>\<rparr>,
                                log2 @ [Query_call (host c) q])))
         else
           driver_mysql_connection_do_query E db c q log =
             Inr (- 1, c0\<lparr>mysql := \<lparr>mysql_errno = e, mysql_error = msg\<rparr>\<rparr>,
                  log0 @ [Query_call (host c) q])
           \<and> driver_mysql_result_get_error
                ((zeroed_result driver_mysql_error_result)
                   \<lparr>conn := Some (c0\<lparr>mysql := \<lparr>mysql_errno = e, mysql_error = msg\<rparr>\<rparr>)\<rparr>)
              = Inr msg)"
  proof (cases "e = CR_SERVER_GONE_ERROR \<or> e = CR_SERVER_LOST")
    case False
    then show ?thesis
      using con rep h0
      by (simp add: driver_mysql_connection_do_query_def
          connection_do_query_loop.simps [of E db 0 c] set_reply_def Let_def
          driver_mysql_result_get_error_def zeroed_result_def)
  next
    case True
    define c1 where "c1 = c0\<lparr>mysql := \<lparr>mysql_errno = e, mysql_error = msg\<rparr>, connected := False\<rparr>"
    define log1 where "log1 = log0 @ [Query_call (host c) q]"
    have s1: "driver_mysql_connection_do_query E db c q log
        = connection_do_query_loop E db 1 c1 q log1"
      using con rep h0 True
      by (simp add: driver_mysql_connection_do_query_def
          connection_do_query_loop.simps [of E db 0 c] set_reply_def Let_def c1_def log1_def)
    have hc1: "host c1 = host c" by (simp add: c1_def h0)
    have s2: "connection_do_query_loop E db 1 c1 q log1 =
        (case driver_mysql_connect E db c1 log1 of
                Inl f \<Rightarrow> Inl f
              | Inr (ok, c2, log2) \<Rightarrow>
                  if \<not> ok then Inr (0, c2, log2)
                  else
                    (case mysql_query_reply E (length log2) (host c) q of
                       Ok \<Rightarrow>
                         Inr (1, c2\<lparr>mysql := \<lparr>mysql_errno = 0, mysql_error = []\<rparr>\<rparr>,
                              log2 @ [Query_call (host c) q])
                     | Failed e' msg' \<Rightarrow>
                         if e' = CR_SERVER_GONE_ERROR \<or> e' = CR_SERVER_LOST then
                           Inr (0, c2\<lparr>mysql := \<lparr>mysql_errno = e', mysql_error = msg'\<rparr>,
                                      connected := False\<rparr>,
                                log2 @ [Query_call (host c) q])
                         else
                           Inr (- 1, c2\<lparr>mysql := \<lparr>mysql_errno = e', mysql_error = msg'\<rparr>\<rparr>,
                                log2 @ [Query_call (host c) q])))"
    proof (cases "driver_mysql_connect E db c1 log1")
      case (Inl f)
      then show ?thesis by (simp add: connection_do_query_loop.simps [of E db 1 c1])
    next
      case (Inr x)
      then obtain ok c2 log2 where con2: "driver_mysql_connect E db c1 log1 = Inr (ok, c2, log2)"
        by (cases x) auto
      have h2: "host c2 = host c" using connect_Inr [OF con2] hc1 by simp
      show ?thesis
        using con2 h2
        by (cases "mysql_query_reply E (length log2) (host c) q")
          (simp_all add: connection_do_query_loop.simps [of E db 1 c1]
            connection_do_query_loop.simps [of E db 2] set_reply_def Let_def)
    qed
    show ?thesis using True s1 s2 by (simp add: c1_def log1_def)
  qed
qed

text \<open>
  Witness for C3: a connection that is up; in one environment the first query loses the
  connection and the query sent again is accepted, in the other the server refuses the
  query.
\<close>

theorem query_retry_once_witness:
  "driver_mysql_connect E_flap new_mysql_db (conn_up ''a'' 50) []
      = Inr (True, conn_up ''a'' 50, [])
   \<and> mysql_query_reply E_flap 0 ''a'' ''q'' = Failed CR_SERVER_GONE_ERROR ''gone''
   \<and> driver_mysql_connection_do_query E_flap new_mysql_db (conn_up ''a'' 50) ''q'' []
      = Inr (1, conn_up ''a'' 100,
             [Query_call ''a'' ''q'', Time_call, Real_connect_call ''a'', Query_call ''a'' ''q''])
   \<and> length (filter is_query
        [Query_call ''a'' ''q'', Time_call, Real_connect_call ''a'', Query_call ''a'' ''q'']) = 2
   \<and> mysql_query_reply E_refuse 0 ''a'' ''q'' = Failed 1064 ''syntax error''
   \<and> driver_mysql_connection_do_query E_refuse new_mysql_db (conn_up ''a'' 50) ''q'' []
      = Inr (- 1, (conn_up ''a'' 50)\<lparr>mysql := \<lparr>mysql_errno = 1064, mysql_error = ''syntax error''\<rparr>\<rparr>,
             [Query_call ''a'' ''q''])"
  using query_retry_once [of E_flap new_mysql_db "conn_up ''a'' 50" "''q''" "[]"]
    query_retry_once [of E_refuse new_mysql_db "conn_up ''a'' 50" "''q''" "[]"]
  by (simp add: driver_mysql_connection_do_query_def connection_do_query_loop.simps
      driver_mysql_connect_def E_flap_def E_refuse_def E_up_def conn_up_def conn_new_def
      set_reply_def new_mysql_db_def
      CONNECT_MIN_DELAY_def CR_SERVER_LOST_def CR_SERVER_GONE_ERROR_def Let_def)

subsection \<open>The back-off of connecting\<close>

text \<open>
  C1, as stated, fails: the dispatcher overwrites \<open>connect_delay\<close> between two failures.
  One dispatch on a pool with a single new connection whose server is down fails to
  connect in the first pass, sets the delay to \<^verbatim>\<open>CONNECT_RESET_DELAY\<close>, and fails again in
  the second pass: after two failures in a row the delay is 75, not 5.
\<close>

theorem connect_backoff_counterexample:
  "driver_mysql_do_query E_down (db_of [''a'']) ''q'' []
     = Some (Inr (0, None,
         new_mysql_db\<lparr>connections :=
           [(conn_new ''a'')\<lparr>mysql := \<lparr>mysql_errno = 2003, mysql_error = ''down''\<rparr>,
              connect_delay := 75, connect_failure_count := 2, last_connect := 500\<rparr>],
           next_query_connection := 1\<rparr>,
         [Slot_tried 0, Time_call, Real_connect_call ''a'',
          Slot_tried 0, Time_call, Real_connect_call ''a'']))
   \<and> unat (75 :: uint) \<noteq> min (unat CONNECT_MIN_DELAY * 5 ^ (2 - 1)) (unat CONNECT_MAX_DELAY)"
  by (simp add: driver_mysql_do_query_def db_of_def new_mysql_db_def conn_new_def E_down_def
      do_query_passes.simps ring_walk.simps driver_mysql_connection_do_query_def
      connection_do_query_loop.simps driver_mysql_connect_def set_reply_def Let_def
      CONNECT_MIN_DELAY_def CONNECT_MAX_DELAY_def CONNECT_RESET_DELAY_def)

text \<open>
  C1 (amended): take a connection that is not connected, has \<open>failure_count = 0\<close> and
  \<open>connect_delay\<close> at its floor (as it is when new, and after a success), and call
  connect on it any number of times, nothing else changing the connection in between. If
  no call succeeds and \<open>N \<ge> 1\<close> of them reached the network (the others were refused by
  the rate limit), then \<open>connect_delay = min (base * 5 ^ (N - 1)) ceiling\<close> with base
  \<^verbatim>\<open>CONNECT_MIN_DELAY\<close> and ceiling \<^verbatim>\<open>CONNECT_MAX_DELAY\<close>, and \<open>failure_count\<close> is \<open>N\<close> (as an
  \<^verbatim>\<open>unsigned int\<close>). And a call that connects leaves \<open>connect_delay\<close> at the floor and
  \<open>failure_count\<close> at 0.
\<close>

theorem connect_backoff:
  "(\<forall>m c oks c' log' N.
      \<not> connected c \<and> connect_failure_count c = 0 \<and> connect_delay c = CONNECT_MIN_DELAY
      \<and> connect_repeat E db m c log = Inr (oks, c', log')
      \<and> (\<forall>ok \<in> set oks. \<not> ok)
      \<and> N = length (filter is_real_connect (drop (length log) log'))
      \<and> 1 \<le> N \<longrightarrow>
      unat (connect_delay c')
        = min (unat CONNECT_MIN_DELAY * 5 ^ (N - 1)) (unat CONNECT_MAX_DELAY)
      \<and> connect_failure_count c' = of_nat N)
   \<and> (\<forall>c c' log'.
        \<not> connected c \<and> driver_mysql_connect E db c log = Inr (True, c', log') \<longrightarrow>
        connect_delay c' = CONNECT_MIN_DELAY \<and> connect_failure_count c' = 0 \<and> connected c')"
proof (intro conjI allI impI)
  fix m c oks c' log' N
  assume a: "\<not> connected c \<and> connect_failure_count c = 0 \<and> connect_delay c = CONNECT_MIN_DELAY
      \<and> connect_repeat E db m c log = Inr (oks, c', log')
      \<and> (\<forall>ok \<in> set oks. \<not> ok)
      \<and> N = length (filter is_real_connect (drop (length log) log'))
      \<and> 1 \<le> N"
  then have f0: "failed_times 0 c"
    by (simp add: failed_times_def CONNECT_MIN_DELAY_def)
  from a have rep: "connect_repeat E db m c log = Inr (oks, c', log')"
    and no: "\<forall>ok \<in> set oks. \<not> ok"
    and N: "N = length (filter is_real_connect (drop (length log) log'))" "1 \<le> N"
    by blast+
  from connect_repeat_failed [OF f0 rep no]
  obtain ev where "log' = log @ ev" "failed_times (0 + length (filter is_real_connect ev)) c'"
    by auto
  with N have "failed_times N c'" by simp
  with N(2) show "unat (connect_delay c')
        = min (unat CONNECT_MIN_DELAY * 5 ^ (N - 1)) (unat CONNECT_MAX_DELAY)"
    and "connect_failure_count c' = of_nat N"
    by (simp_all add: failed_times_def CONNECT_MIN_DELAY_def CONNECT_MAX_DELAY_def)
next
  fix c c' log'
  assume "\<not> connected c \<and> driver_mysql_connect E db c log = Inr (True, c', log')"
  then show "connect_delay c' = CONNECT_MIN_DELAY" "connect_failure_count c' = 0" "connected c'"
    by (auto simp: driver_mysql_connect_def Let_def split: if_splits reply.splits)
qed

text \<open>
  Witness for C1: three failures in a row on a new connection give the delay 25; a
  connection with delay 25 that connects is back at the floor.
\<close>

theorem connect_backoff_witness:
  "connect_repeat E_down new_mysql_db 3 (conn_new ''a'') []
     = Inr ([False, False, False],
            (conn_new ''a'')\<lparr>mysql := \<lparr>mysql_errno = 2003, mysql_error = ''down''\<rparr>,
               connect_delay := 25, connect_failure_count := 3, last_connect := 500\<rparr>,
            [Time_call, Real_connect_call ''a'', Time_call, Real_connect_call ''a'',
             Time_call, Real_connect_call ''a''])
   \<and> unat (connect_delay ((conn_new ''a'')\<lparr>mysql := \<lparr>mysql_errno = 2003, mysql_error = ''down''\<rparr>,
               connect_delay := 25, connect_failure_count := 3, last_connect := 500\<rparr>))
       = min (unat CONNECT_MIN_DELAY * 5 ^ (3 - 1)) (unat CONNECT_MAX_DELAY)
   \<and> driver_mysql_connect E_up new_mysql_db ((conn_new ''a'')\<lparr>connect_delay := 25\<rparr>) []
       = Inr (True, conn_up ''a'' 100, [Time_call, Real_connect_call ''a''])
   \<and> connect_delay (conn_up ''a'' 100) = CONNECT_MIN_DELAY
   \<and> connect_failure_count (conn_up ''a'' 100) = 0"
proof -
  define c' where "c' = (conn_new ''a'')\<lparr>mysql := \<lparr>mysql_errno = 2003, mysql_error = ''down''\<rparr>,
               connect_delay := 25, connect_failure_count := 3, last_connect := 500\<rparr>"
  define log' where "log' = [Time_call, Real_connect_call ''a'', Time_call,
      Real_connect_call ''a'', Time_call, Real_connect_call ''a'']"
  have run: "connect_repeat E_down new_mysql_db 3 (conn_new ''a'') []
      = Inr ([False, False, False], c', log')"
    unfolding c'_def log'_def by code_simp
  have one: "\<not> connected ((conn_new ''a'')\<lparr>connect_delay := 25\<rparr>)
      \<and> driver_mysql_connect E_up new_mysql_db ((conn_new ''a'')\<lparr>connect_delay := 25\<rparr>) []
       = Inr (True, conn_up ''a'' 100, [Time_call, Real_connect_call ''a''])"
    by (simp add: driver_mysql_connect_def E_up_def conn_new_def conn_up_def new_mysql_db_def
        set_reply_def Let_def CONNECT_MIN_DELAY_def)
  from connect_backoff [THEN conjunct2, rule_format, OF one]
  have two: "connect_delay (conn_up ''a'' 100) = CONNECT_MIN_DELAY
      \<and> connect_failure_count (conn_up ''a'' 100) = 0"
    by simp
  have hyp: "\<not> connected (conn_new ''a'') \<and> connect_failure_count (conn_new ''a'') = 0
      \<and> connect_delay (conn_new ''a'') = CONNECT_MIN_DELAY
      \<and> connect_repeat E_down new_mysql_db 3 (conn_new ''a'') [] = Inr ([False, False, False], c', log')
      \<and> (\<forall>ok \<in> set [False, False, False]. \<not> ok)
      \<and> (3::nat) = length (filter is_real_connect (drop (length ([] :: event list)) log'))
      \<and> 1 \<le> (3::nat)"
    using run by (simp add: conn_new_def log'_def)
  from connect_backoff [THEN conjunct1, rule_format, OF hyp]
  have "unat (connect_delay c')
        = min (unat CONNECT_MIN_DELAY * 5 ^ (3 - 1)) (unat CONNECT_MAX_DELAY)"
    by simp
  with run one two show ?thesis by (simp add: c'_def log'_def)
qed

subsection \<open>The result cursor\<close>

text \<open>
  C7: take a Rows result whose handle reports no error (as every Rows result handed to
  the callback does, \<open>rows_result_clean\<close>). If its source delivers the rows and then
  is exhausted, \<open>next_row()\<close> returns Row (\<open>1\<close>) once per row and End (\<open>0\<close>) on every
  call after the last row, however many follow. If after some rows the source reports
  a fault such as a lost connection (the fetch yields no row and an error code is set),
  the next call returns Error (\<open>-1\<close>), not End.
\<close>

theorem result_cursor_end:
  assumes "result r = Some res" "conn r = Some c" "mysql_errno (mysql c) = 0"
  shows "(res_rows res = map Fetch_row rows \<longrightarrow>
            (\<exists>r'. next_row_calls (length rows + n) r
                    = Inr (replicate (length rows) 1 @ replicate n 0, r')))
       \<and> (res_rows res = map Fetch_row rows @ Fetch_fault e msg # rest \<and> e \<noteq> 0 \<longrightarrow>
            (\<exists>r'. next_row_calls (length rows + 1) r
                    = Inr (replicate (length rows) 1 @ [- 1], r')))"
proof (intro conjI impI)
  assume a: "res_rows res = map Fetch_row rows"
  from next_row_calls_rows [OF assms(1,2), of rows "[]"] a
  obtain r1 where r1: "next_row_calls (length rows) r = Inr (replicate (length rows) 1, r1)"
    "result r1 = Some (res\<lparr>res_rows := []\<rparr>)" "conn r1 = Some c"
    by auto
  from next_row_calls_end [OF r1(2,3) assms(3), of n]
  obtain r2 where "next_row_calls n r1 = Inr (replicate n 0, r2)" by auto
  from next_row_calls_append [OF r1(1) this]
  show "\<exists>r'. next_row_calls (length rows + n) r
                    = Inr (replicate (length rows) 1 @ replicate n 0, r')"
    by blast
next
  assume a: "res_rows res = map Fetch_row rows @ Fetch_fault e msg # rest \<and> e \<noteq> 0"
  from next_row_calls_rows [OF assms(1,2), of rows "Fetch_fault e msg # rest"] a
  obtain r1 where r1: "next_row_calls (length rows) r = Inr (replicate (length rows) 1, r1)"
    "result r1 = Some (res\<lparr>res_rows := Fetch_fault e msg # rest\<rparr>)" "conn r1 = Some c"
    by auto
  from next_row_fault [OF r1(2,3), of e msg rest] a
  obtain r2 where "driver_mysql_result_next_row r1 = Inr (- 1, r2)" by auto
  then have "next_row_calls 1 r1 = Inr ([- 1], r2)" by simp
  from next_row_calls_append [OF r1(1) this]
  show "\<exists>r'. next_row_calls (length rows + 1) r
                    = Inr (replicate (length rows) 1 @ [- 1], r')"
    by blast
qed

text \<open>
  Witness for C7: two rows and then three more calls; one row and then a lost connection.
\<close>

theorem result_cursor_end_witness:
  "(\<exists>r'. next_row_calls 5 (rows_result [Fetch_row [''a'', ''1''], Fetch_row [''b'', ''2'']])
           = Inr ([1, 1, 0, 0, 0], r'))
   \<and> (\<exists>r'. next_row_calls 2
               (rows_result [Fetch_row [''a'', ''1''], Fetch_fault CR_SERVER_LOST ''lost''])
           = Inr ([1, - 1], r'))"
proof -
  have h: "result (rows_result fs) = Some \<lparr>res_rows = fs, res_fields = [''k'', ''v'']\<rparr>"
    "conn (rows_result fs) = Some (conn_up ''a'' 50)"
    "mysql_errno (mysql (conn_up ''a'' 50)) = 0" for fs
    by (simp_all add: rows_result_def zeroed_result_def conn_up_def conn_new_def)
  have n: "(5::nat) = length [[''a'', ''1''], [''b'', ''2'']] + 3"
    "(2::nat) = length [[''a'', ''1'']] + 1"
    by simp_all
  have "\<exists>r'. next_row_calls (length [[''a'', ''1''], [''b'', ''2'']] + 3)
               (rows_result [Fetch_row [''a'', ''1''], Fetch_row [''b'', ''2'']])
           = Inr (replicate (length [[''a'', ''1''], [''b'', ''2'']]) 1 @ replicate 3 0, r')"
    using result_cursor_end [where rows = "[[''a'', ''1''], [''b'', ''2'']]" and n = 3, OF h]
    by simp
  moreover have "\<exists>r'. next_row_calls (length [[''a'', ''1'']] + 1)
               (rows_result [Fetch_row [''a'', ''1''], Fetch_fault CR_SERVER_LOST ''lost''])
           = Inr (replicate (length [[''a'', ''1'']]) 1 @ [- 1], r')"
    using result_cursor_end [where rows = "[[''a'', ''1'']]" and e = CR_SERVER_LOST
        and msg = "''lost''" and rest = "[]", OF h]
    by (simp add: CR_SERVER_LOST_def)
  ultimately show ?thesis
    unfolding n by (simp add: numeral_3_eq_3)
qed

subsection \<open>The ring made from the connect string\<close>

text \<open>
  C8, as stated, fails in its first half: in a build without \<^verbatim>\<open>HAVE_MYSQL_SSL\<close>, a
  connect string of valid tokens with a host and an \<^verbatim>\<open>ssl_ca\<close> setting does not give a
  handle: the first connect that init makes ends in \<^verbatim>\<open>i_fatal\<close>.
\<close>

theorem init_ring_counterexample:
  "list_all valid_token (t_strsplit_spaces ''host=a ssl_ca=/etc/ca.pem'' '' '')
   \<and> declared_hosts (t_strsplit_spaces ''host=a ssl_ca=/etc/ca.pem'' '' '') = [''a'']
   \<and> driver_mysql_init E_no_ssl ''host=a ssl_ca=/etc/ca.pem'' []
      = Inl (Fatal ''mysql: SSL support not compiled in (remove ssl_ca and ssl_ca_path settings)'')"
proof -
  have tk: "t_strsplit_spaces ''host=a ssl_ca=/etc/ca.pem'' '' '' = [''host=a'', ''ssl_ca=/etc/ca.pem'']"
    by code_simp
  show ?thesis
    unfolding tk
    by (simp add: valid_token_def known_keys_def token_name_def token_value_def
        declared_hosts_def is_host_token_def driver_mysql_init_def
        driver_mysql_parse_connect_string_def tk new_mysql_db_def parse_connect_args.simps
        driver_mysql_connection_add_def E_no_ssl_def E_up_def driver_mysql_connect_all_def
        driver_mysql_connect_def CONNECT_MIN_DELAY_def Let_def)
qed

text \<open>
  C8 (amended): if every token of the connect string is a \<open>key=value\<close> pair with a known
  key, at least one of them is a \<open>host\<close> or \<open>hostaddr\<close> token, the client library hands
  out a handle for every host (\<^verbatim>\<open>mysql_init\<close> does not fail), and the build has SSL support
  or no \<open>ssl_ca\<close>/\<open>ssl_ca_path\<close> token is given, then init succeeds and the ring holds
  exactly one connection per host token, in the order of the string. If the string has
  no host token, init fails fatally.
\<close>

theorem init_ring:
  assumes "tokens = t_strsplit_spaces s '' ''"
  shows "(list_all valid_token tokens \<and> declared_hosts tokens \<noteq> []
          \<and> (\<forall>k. mysql_init_reply E k) \<and> (HAVE_MYSQL_SSL E \<or> \<not> asks_ssl tokens) \<longrightarrow>
            (\<exists>db log'. driver_mysql_init E s log = Inr (db, log')
               \<and> map host (connections db) = declared_hosts tokens))
       \<and> (declared_hosts tokens = [] \<longrightarrow> (\<exists>msg. driver_mysql_init E s log = Inl (Fatal msg)))"
proof (intro conjI impI)
  define db0 where "db0 = new_mysql_db\<lparr>ssl_cipher := Some ''HIGH''\<rparr>"
  have c0: "connections db0 = []" "ssl_ca db0 = None" "ssl_ca_path db0 = None"
    by (simp_all add: db0_def new_mysql_db_def)
  {
    assume a: "list_all valid_token tokens \<and> declared_hosts tokens \<noteq> []
          \<and> (\<forall>k. mysql_init_reply E k) \<and> (HAVE_MYSQL_SSL E \<or> \<not> asks_ssl tokens)"
    then have v: "list_all valid_token tokens" and h: "declared_hosts tokens \<noteq> []"
      and i: "\<forall>k. mysql_init_reply E k" and ssl: "HAVE_MYSQL_SSL E \<or> \<not> asks_ssl tokens"
      by blast+
    from parse_valid [OF v i, of db0 log]
    obtain db1 log1 where p: "parse_connect_args E db0 tokens log = Inr (db1, log1)" by auto
    from parse_hosts [OF p] c0 have h1: "map host (connections db1) = declared_hosts tokens"
      by simp
    with h have ne: "connections db1 \<noteq> []" by auto
    have "\<not> ssl_unsupported E db1"
    proof (cases "HAVE_MYSQL_SSL E")
      case True
      then show ?thesis by (simp add: ssl_unsupported_def)
    next
      case False
      with ssl have "\<not> asks_ssl tokens" by simp
      from parse_ssl [OF p this] c0 show ?thesis by (simp add: ssl_unsupported_def)
    qed
    from connect_all_loop_total [OF this, of "connections db1" log1]
    obtain cs' log' where ca: "connect_all_loop E db1 (connections db1) log1 = Inr (cs', log')"
      by auto
    have "driver_mysql_init E s log = Inr (db1\<lparr>connections := cs'\<rparr>, log')"
      using p ne ca assms
      by (simp add: driver_mysql_init_def driver_mysql_parse_connect_string_def
          driver_mysql_connect_all_def db0_def)
    moreover have "map host (connections (db1\<lparr>connections := cs'\<rparr>)) = declared_hosts tokens"
      using connect_all_loop_hosts [OF ca] h1 by simp
    ultimately show "\<exists>db log'. driver_mysql_init E s log = Inr (db, log')
               \<and> map host (connections db) = declared_hosts tokens"
      by blast
  }
  {
    assume z: "declared_hosts tokens = []"
    show "\<exists>msg. driver_mysql_init E s log = Inl (Fatal msg)"
    proof (cases "parse_connect_args E db0 tokens log")
      case (Inl f)
      from parse_fatal [OF this] obtain msg where "f = Fatal msg" by auto
      with Inl assms show ?thesis
        by (simp add: driver_mysql_init_def driver_mysql_parse_connect_string_def db0_def)
    next
      case (Inr x)
      then obtain db1 log1 where p: "parse_connect_args E db0 tokens log = Inr (db1, log1)"
        by (cases x) auto
      from parse_hosts [OF p] c0 z have "connections db1 = []" by simp
      with p assms show ?thesis
        by (simp add: driver_mysql_init_def driver_mysql_parse_connect_string_def db0_def)
    qed
  }
qed

text \<open>
  Witness for C8: two hosts and a user, separated by one and by two spaces; and a string
  without any host.
\<close>

theorem init_ring_witness:
  "(\<exists>db log'. driver_mysql_init E_up ''host=a  user=u hostaddr=b'' [] = Inr (db, log')
       \<and> map host (connections db) = [''a'', ''b''])
   \<and> (\<exists>msg. driver_mysql_init E_up ''user=u dbname=mail'' [] = Inl (Fatal msg))"
proof -
  have tk: "t_strsplit_spaces ''host=a  user=u hostaddr=b'' '' ''
      = [''host=a'', ''user=u'', ''hostaddr=b'']"
    "t_strsplit_spaces ''user=u dbname=mail'' '' '' = [''user=u'', ''dbname=mail'']"
    by code_simp+
  have h1: "list_all valid_token [''host=a'', ''user=u'', ''hostaddr=b'']
      \<and> declared_hosts [''host=a'', ''user=u'', ''hostaddr=b''] \<noteq> []
      \<and> (\<forall>k. mysql_init_reply E_up k)
      \<and> (HAVE_MYSQL_SSL E_up \<or> \<not> asks_ssl [''host=a'', ''user=u'', ''hostaddr=b''])"
    by (simp add: valid_token_def known_keys_def token_name_def declared_hosts_def
        is_host_token_def E_up_def)
  have d1: "declared_hosts [''host=a'', ''user=u'', ''hostaddr=b''] = [''a'', ''b'']"
    by (simp add: declared_hosts_def is_host_token_def token_name_def token_value_def)
  have d2: "declared_hosts [''user=u'', ''dbname=mail''] = []"
    by (simp add: declared_hosts_def is_host_token_def token_name_def)
  from init_ring [OF tk(1) [symmetric], of E_up "[]", THEN conjunct1, rule_format, OF h1]
    init_ring [OF tk(2) [symmetric], of E_up "[]", THEN conjunct2, rule_format, OF d2]
  show ?thesis by (simp add: d1)
qed

end
